theory Spec2Isabelle
  imports Complex_Main
begin

section \<open>JavaScript values used by the add-in\<close>

text \<open>
  The program is the compiled script \<^verbatim>\<open>ModernTrend.js\<close>. Exceptions are values:
  a function that can throw returns \<open>js_error + 'a\<close>, with \<open>Inl\<close> for the exception.
\<close>

datatype js_error =
    TypeError            \<comment> \<open>a property read on \<^verbatim>\<open>undefined\<close> or \<^verbatim>\<open>null\<close>, or a call of a non-function\<close>
  | ParameterIsNull      \<comment> \<open>thrown by \<^verbatim>\<open>Validator.isNotNull\<close>\<close>
  | RangeError           \<comment> \<open>an assignment to the \<^verbatim>\<open>length\<close> of an array of a value that is no array length\<close>

text \<open>
  A JavaScript number is \<^verbatim>\<open>NaN\<close>, an infinity or a finite value. Only comparisons,
  \<^verbatim>\<open>Math.max\<close>, \<^verbatim>\<open>Math.min\<close>, the test for zero and the test for an array length are
  applied to numbers by the functions below, and no arithmetic, so a finite double is
  represented by the real number it denotes (the sign of zero is not kept).
\<close>

datatype jsnum = NaN | NegInf | Fin real | PosInf

fun isNaN :: "jsnum \<Rightarrow> bool" where
  "isNaN NaN = True"
| "isNaN _ = False"

text \<open>The relational operator \<^verbatim>\<open><\<close>: false as soon as one side is \<^verbatim>\<open>NaN\<close>.\<close>

fun js_lt :: "jsnum \<Rightarrow> jsnum \<Rightarrow> bool" where
  "js_lt NaN _ = False"
| "js_lt _ NaN = False"
| "js_lt NegInf NegInf = False"
| "js_lt NegInf _ = True"
| "js_lt (Fin a) NegInf = False"
| "js_lt (Fin a) (Fin b) = (a < b)"
| "js_lt (Fin a) PosInf = True"
| "js_lt PosInf _ = False"

definition js_gt :: "jsnum \<Rightarrow> jsnum \<Rightarrow> bool" where
  "js_gt a b = js_lt b a"

text \<open>Strict equality \<^verbatim>\<open>===\<close> on numbers: \<^verbatim>\<open>NaN\<close> equals nothing.\<close>

definition js_seq :: "jsnum \<Rightarrow> jsnum \<Rightarrow> bool" where
  "js_seq a b = (\<not> isNaN a \<and> \<not> isNaN b \<and> a = b)"

definition Math_max :: "jsnum \<Rightarrow> jsnum \<Rightarrow> jsnum" where
  "Math_max a b = (if isNaN a \<or> isNaN b then NaN else if js_lt a b then b else a)"

definition Math_min :: "jsnum \<Rightarrow> jsnum \<Rightarrow> jsnum" where
  "Math_min a b = (if isNaN a \<or> isNaN b then NaN else if js_lt b a then b else a)"

text \<open>
  A spreadsheet cell as the host hands it over (\<^verbatim>\<open>any\<close>): absent, \<^verbatim>\<open>null\<close>, a string,
  a number or a boolean.
\<close>

datatype cell = Undefined | Null | Str string | Number jsnum | Boolean bool

text \<open>
  A configuration value (\<^verbatim>\<open>any\<close>). \<open>VNull\<close> stands for \<^verbatim>\<open>null\<close> and \<^verbatim>\<open>undefined\<close>, which
  the validator and the configurator treat alike. An array is an object: \<open>VArray a\<close> is the
  reference to the array at the address \<open>a\<close> of the store of arrays, so that two holders
  of the reference see each other's changes.
\<close>

datatype cvalue = VNull | VBool bool | VNum jsnum | VStr string | VArray nat

text \<open>\<^verbatim>\<open>ToBoolean\<close>, as applied by \<^verbatim>\<open>!\<close> and \<^verbatim>\<open>if\<close>.\<close>

definition truthy :: "cvalue \<Rightarrow> bool" where
  "truthy v =
     (case v of
        VNull \<Rightarrow> False
      | VBool b \<Rightarrow> b
      | VNum n \<Rightarrow> \<not> isNaN n \<and> n \<noteq> Fin 0
      | VStr s \<Rightarrow> s \<noteq> []
      | VArray a \<Rightarrow> True)"

text \<open>Reading \<^verbatim>\<open>row[i]\<close>: an index past the end gives \<^verbatim>\<open>undefined\<close>.\<close>

definition cell_at :: "cell list \<Rightarrow> nat \<Rightarrow> cell" where
  "cell_at row i = (if i < length row then row ! i else Undefined)"

text \<open>Reading \<^verbatim>\<open>matrix[i]\<close>: \<open>None\<close> stands for \<^verbatim>\<open>undefined\<close>.\<close>

definition row_at :: "'a list \<Rightarrow> nat \<Rightarrow> 'a option" where
  "row_at m i = (if i < length m then Some (m ! i) else None)"

section \<open>Theme provider\<close>

record Theme =
  theme_id :: string
  thumbnail :: string
  sku :: string
  css :: string

text \<open>\<open>definitions = None\<close> is the initial \<^verbatim>\<open>null\<close>: the catalog has not been loaded.\<close>

record ThemeProvider =
  definitions :: "Theme list option"
  currentThemeId :: string

text \<open>The getter \<^verbatim>\<open>Themes\<close> validates that the catalog is loaded.\<close>

definition Themes :: "ThemeProvider \<Rightarrow> js_error + Theme list" where
  "Themes p = (case definitions p of None \<Rightarrow> Inl ParameterIsNull | Some ts \<Rightarrow> Inr ts)"

text \<open>\<^verbatim>\<open>Themes[0]\<close>; \<open>None\<close> is the \<^verbatim>\<open>undefined\<close> read from an empty catalog.\<close>

definition Default :: "ThemeProvider \<Rightarrow> js_error + Theme option" where
  "Default p = (case Themes p of Inl e \<Rightarrow> Inl e | Inr ts \<Rightarrow> Inr (row_at ts 0))"

text \<open>\<open>Inr None\<close> is the \<^verbatim>\<open>null\<close> returned when no entry has the id.\<close>

definition getThemeById :: "ThemeProvider \<Rightarrow> string \<Rightarrow> js_error + Theme option" where
  "getThemeById p i =
     (case Themes p of
        Inl e \<Rightarrow> Inl e
      | Inr ts \<Rightarrow>
          (let match = filter (\<lambda>v. theme_id v = i) ts
           in Inr (if length match > 0 then Some (match ! 0) else None)))"

definition CurrentTheme :: "ThemeProvider \<Rightarrow> js_error + Theme option" where
  "CurrentTheme p =
     (case getThemeById p (currentThemeId p) of
        Inl e \<Rightarrow> Inl e
      | Inr (Some theme) \<Rightarrow> Inr (Some theme)
      | Inr None \<Rightarrow> Default p)"

section \<open>Header detection of the data binder\<close>

text \<open>
  \<^verbatim>\<open>DataBinder.detectHeader\<close>. The cell's \<^verbatim>\<open>toString()\<close> and jQuery's \<^verbatim>\<open>$.isNumeric\<close>
  belong to the host libraries and are parameters. The loop runs over the column indices
  \<open>1 ..< data[0].length\<close> and carries \<^verbatim>\<open>hasHeader\<close>.
\<close>

fun detectHeader_loop :: "(cell \<Rightarrow> string) \<Rightarrow> (string \<Rightarrow> bool) \<Rightarrow> cell list \<Rightarrow> nat list \<Rightarrow> bool \<Rightarrow> bool" where
  "detectHeader_loop toString isNumeric row0 [] hasHeader = hasHeader"
| "detectHeader_loop toString isNumeric row0 (i # is) hasHeader =
     detectHeader_loop toString isNumeric row0 is
       (if cell_at row0 i \<noteq> Null \<and> cell_at row0 i \<noteq> Undefined
        then (let stringData = toString (cell_at row0 i)
              in if length stringData > 0 \<and> isNumeric stringData then False else hasHeader)
        else hasHeader)"

text \<open>\<open>data = None\<close> is a \<^verbatim>\<open>null\<close> argument, rejected by the validator.\<close>

definition detectHeader :: "(cell \<Rightarrow> string) \<Rightarrow> (string \<Rightarrow> bool) \<Rightarrow> cell list list option \<Rightarrow> js_error + bool" where
  "detectHeader toString isNumeric data =
     (case data of
        None \<Rightarrow> Inl ParameterIsNull
      | Some m \<Rightarrow>
          (case row_at m 0 of
             None \<Rightarrow> Inl TypeError
           | Some row0 \<Rightarrow> Inr (detectHeader_loop toString isNumeric row0 [1 ..< length row0] True)))"

text \<open>A cell of row 0 that the heuristic takes for a number.\<close>

definition numeric_looking :: "(cell \<Rightarrow> string) \<Rightarrow> (string \<Rightarrow> bool) \<Rightarrow> cell \<Rightarrow> bool" where
  "numeric_looking toString isNumeric c =
     (c \<noteq> Null \<and> c \<noteq> Undefined \<and> length (toString c) > 0 \<and> isNumeric (toString c))"

section \<open>Data convertor\<close>

record PointDataOnLine =
  originalIndex :: nat
  formatted :: cell
  unformatted :: jsnum

record LineDataConverted =
  validDataCount :: nat
  data :: "PointDataOnLine list"

text \<open>\<open>yData = None\<close> is the \<^verbatim>\<open>null\<close> of the empty conversion result.\<close>

record BindingData =
  header :: "cell list"
  xData :: "cell list"
  yData :: "LineDataConverted list option"

text \<open>
  \<^verbatim>\<open>RawData\<close>: the fields \<^verbatim>\<open>formatted\<close> and \<^verbatim>\<open>unformatted\<close> are matrices of cells, or
  \<open>None\<close> when they are \<^verbatim>\<open>null\<close> or \<^verbatim>\<open>undefined\<close>.
\<close>

record RawData =
  hasHeader :: bool
  raw_formatted :: "cell list list option"
  raw_unformatted :: "cell list list option"

definition MaxLineNumber :: int where
  "MaxLineNumber = 5"

definition MaxColumnNumber :: nat where
  "MaxColumnNumber = 50"

text \<open>
  The global \<^verbatim>\<open>parseFloat\<close> converts its argument to a string and parses a decimal prefix.
  The string forms of \<^verbatim>\<open>undefined\<close>, \<^verbatim>\<open>null\<close> and the booleans have no such prefix; the
  string form of a number parses back to that number. The parser of string cells is the
  host's and is the parameter \<open>parseStr\<close>.
\<close>

definition parseFloat :: "(string \<Rightarrow> jsnum) \<Rightarrow> cell \<Rightarrow> jsnum" where
  "parseFloat parseStr c =
     (case c of
        Undefined \<Rightarrow> NaN
      | Null \<Rightarrow> NaN
      | Boolean b \<Rightarrow> NaN
      | Number n \<Rightarrow> n
      | Str s \<Rightarrow> parseStr s)"

text \<open>The assignment \<^verbatim>\<open>xs[k] = v\<close> on an array: past the end it extends the array.\<close>

definition array_set :: "cell list \<Rightarrow> nat \<Rightarrow> cell \<Rightarrow> cell list" where
  "array_set xs k v =
     (if k < length xs then xs[k := v]
      else xs @ replicate (k - length xs) Undefined @ [v])"

definition isDataValid :: "'a option \<Rightarrow> bool" where
  "isDataValid d = (d \<noteq> None)"

text \<open>The loop that copies the header cells \<^verbatim>\<open>formatted[0][i + 1]\<close>.\<close>

fun convert_header :: "cell list \<Rightarrow> nat list \<Rightarrow> cell list \<Rightarrow> cell list" where
  "convert_header row0 [] h = h"
| "convert_header row0 (i # is) h = convert_header row0 is (array_set h i (cell_at row0 (i + 1)))"

text \<open>The loop that pushes one empty series per line.\<close>

fun convert_lines :: "nat list \<Rightarrow> LineDataConverted list \<Rightarrow> LineDataConverted list" where
  "convert_lines [] ys = ys"
| "convert_lines (i # is) ys = convert_lines is (ys @ [\<lparr>validDataCount = 0, data = []\<rparr>])"

text \<open>
  The inner loop over the lines \<open>j\<close> of row \<open>i\<close>. \<^verbatim>\<open>data.unformatted[i]\<close> is read in every
  iteration; the read of \<open>[j + 1]\<close> on a missing row throws.
\<close>

fun convert_row :: "(string \<Rightarrow> jsnum) \<Rightarrow> cell list \<Rightarrow> cell list list \<Rightarrow> nat \<Rightarrow> nat \<Rightarrow> nat list
                      \<Rightarrow> LineDataConverted list \<Rightarrow> js_error + LineDataConverted list" where
  "convert_row parseStr frow u i start [] ys = Inr ys"
| "convert_row parseStr frow u i start (j # js) ys =
     (case row_at u i of
        None \<Rightarrow> Inl TypeError
      | Some urow \<Rightarrow>
          (let temp = parseFloat parseStr (cell_at urow (j + 1))
           in if \<not> isNaN temp
              then (case row_at ys j of
                      None \<Rightarrow> Inl TypeError
                    | Some line \<Rightarrow>
                        convert_row parseStr frow u i start js
                          (ys[j := \<lparr>validDataCount = validDataCount line + 1,
                                    data = data line @ [\<lparr>originalIndex = i - start,
                                                          formatted = cell_at frow (j + 1),
                                                          unformatted = temp\<rparr>]\<rparr>]))
              else convert_row parseStr frow u i start js ys))"

text \<open>The outer loop over the rows \<open>i\<close>; the state is \<^verbatim>\<open>xData\<close> and \<^verbatim>\<open>yData\<close>.\<close>

fun convert_rows :: "(string \<Rightarrow> jsnum) \<Rightarrow> cell list list \<Rightarrow> cell list list \<Rightarrow> nat \<Rightarrow> nat list \<Rightarrow> nat list
                       \<Rightarrow> cell list \<times> LineDataConverted list
                       \<Rightarrow> js_error + cell list \<times> LineDataConverted list" where
  "convert_rows parseStr f u start js [] st = Inr st"
| "convert_rows parseStr f u start js (i # is) (xs, ys) =
     (case row_at f i of
        None \<Rightarrow> Inl TypeError
      | Some frow \<Rightarrow>
          (case convert_row parseStr frow u i start js ys of
             Inl e \<Rightarrow> Inl e
           | Inr ys' \<Rightarrow>
               convert_rows parseStr f u start js is (array_set xs (i - start) (cell_at frow 0), ys')))"

definition convert :: "(string \<Rightarrow> jsnum) \<Rightarrow> RawData \<Rightarrow> js_error + BindingData" where
  "convert parseStr d =
     (let convertedData = \<lparr>header = [], xData = [], yData = None\<rparr>
      in if \<not> isDataValid (raw_formatted d) \<or> \<not> isDataValid (raw_unformatted d)
         then Inr convertedData
         else
           (let f = the (raw_formatted d); u = the (raw_unformatted d)
            in case row_at f 0 of
                 None \<Rightarrow> Inl TypeError
               | Some row0 \<Rightarrow>
                   (let lineNumber = min (int (length row0) - 1) MaxLineNumber;
                        js = [0 ..< nat lineNumber];
                        hdr = (if hasHeader d then convert_header row0 js [] else []);
                        ys0 = convert_lines js [];
                        columnNumber = min (length f) MaxColumnNumber;
                        columnNumberStartIndex = (if hasHeader d then 1 else 0)
                    in case convert_rows parseStr f u columnNumberStartIndex js
                              [columnNumberStartIndex ..< columnNumber] ([], ys0) of
                         Inl e \<Rightarrow> Inl e
                       | Inr (xs, ys) \<Rightarrow> Inr \<lparr>header = hdr, xData = xs, yData = Some ys\<rparr>)))"

text \<open>What a series of a conversion result satisfies.\<close>

definition line_ok :: "LineDataConverted \<Rightarrow> bool" where
  "line_ok l =
     (validDataCount l = length (data l)
      \<and> (\<forall>p \<in> set (data l). \<not> isNaN (unformatted p))
      \<and> sorted_wrt (<) (map originalIndex (data l)))"

text \<open>The inputs on which \<^verbatim>\<open>convert\<close> throws: both matrices are present, and the formatted
  one has no row 0, or there is a line to fill and a processed row index that the
  unformatted matrix does not have.\<close>

definition convert_throws :: "RawData \<Rightarrow> bool" where
  "convert_throws d =
     (case (raw_formatted d, raw_unformatted d) of
        (Some f, Some u) \<Rightarrow>
          f = [] \<or> (1 < length (f ! 0)
                  \<and> (if hasHeader d then 1 else 0) < min (length f) MaxColumnNumber
                  \<and> length u < min (length f) MaxColumnNumber)
      | _ \<Rightarrow> False)"

section \<open>Line chart plotter\<close>

text \<open>
  The fields of the plotter that \<^verbatim>\<open>plot\<close>, \<^verbatim>\<open>onDataChanged\<close>, \<^verbatim>\<open>initData\<close>,
  \<^verbatim>\<open>setMaxAndMin\<close> and \<^verbatim>\<open>isPercentageFormat\<close> read or write, but for the sizes read from
  the page. \<open>None\<close> is \<^verbatim>\<open>undefined\<close> (or \<^verbatim>\<open>null\<close>). The four arrays of the per-line state
  are held as the values that \<^verbatim>\<open>Configuration.get\<close> returned: references to the arrays
  that the configuration stores.
\<close>

record LineChartPlotter =
  bindingData :: "BindingData option"
  lineNumber :: nat
  columnNumber :: nat
  plotter_max :: "jsnum option"
  plotter_min :: "jsnum option"
  isLegendEdited :: cvalue
  clickedPointIdArray :: cvalue
  lineOrder :: cvalue
  lineDisplay :: cvalue
  lineTitleArray :: cvalue

text \<open>\<^verbatim>\<open>ToNumber\<close> on a field that may be \<^verbatim>\<open>undefined\<close>.\<close>

definition to_number :: "jsnum option \<Rightarrow> jsnum" where
  "to_number v = (case v of None \<Rightarrow> NaN | Some n \<Rightarrow> n)"

text \<open>\<^verbatim>\<open>this.bindingData.yData[i]\<close>: throws when the binding data or its \<^verbatim>\<open>yData\<close> is
  missing, and is \<^verbatim>\<open>undefined\<close> (\<open>Inr None\<close>) past the end.\<close>

definition yData_at :: "LineChartPlotter \<Rightarrow> nat \<Rightarrow> js_error + LineDataConverted option" where
  "yData_at p i =
     (case bindingData p of
        None \<Rightarrow> Inl TypeError
      | Some bd \<Rightarrow> (case yData bd of None \<Rightarrow> Inl TypeError | Some ys \<Rightarrow> Inr (row_at ys i)))"

text \<open>The inner loop of \<^verbatim>\<open>setMaxAndMin\<close>; the state is \<^verbatim>\<open>isFirstNumber\<close>, \<^verbatim>\<open>this.max\<close>
  and \<^verbatim>\<open>this.min\<close>.\<close>

fun setMaxAndMin_line :: "LineDataConverted \<Rightarrow> nat list \<Rightarrow> bool \<times> jsnum option \<times> jsnum option
                           \<Rightarrow> js_error + bool \<times> jsnum option \<times> jsnum option" where
  "setMaxAndMin_line line [] st = Inr st"
| "setMaxAndMin_line line (j # js) (isFirstNumber, mx, mn) =
     (case row_at (data line) j of
        None \<Rightarrow> Inl TypeError
      | Some p \<Rightarrow>
          (let temp = unformatted p;
               mx1 = (if isFirstNumber then Some temp else mx);
               mn1 = (if isFirstNumber then Some temp else mn)
           in setMaxAndMin_line line js
                (False, Some (Math_max (to_number mx1) temp), Some (Math_min (to_number mn1) temp))))"

fun setMaxAndMin_lines :: "LineChartPlotter \<Rightarrow> nat list \<Rightarrow> bool \<times> jsnum option \<times> jsnum option
                            \<Rightarrow> js_error + bool \<times> jsnum option \<times> jsnum option" where
  "setMaxAndMin_lines p [] st = Inr st"
| "setMaxAndMin_lines p (i # is) st =
     (case yData_at p i of
        Inl e \<Rightarrow> Inl e
      | Inr None \<Rightarrow> setMaxAndMin_lines p is st
      | Inr (Some line) \<Rightarrow>
          (case setMaxAndMin_line line [0 ..< validDataCount line] st of
             Inl e \<Rightarrow> Inl e
           | Inr st' \<Rightarrow> setMaxAndMin_lines p is st'))"

definition setMaxAndMin :: "LineChartPlotter \<Rightarrow> js_error + LineChartPlotter" where
  "setMaxAndMin p =
     (case setMaxAndMin_lines p [0 ..< lineNumber p] (True, plotter_max p, plotter_min p) of
        Inl e \<Rightarrow> Inl e
      | Inr (isFirstNumber, mx, mn) \<Rightarrow>
          (if isFirstNumber \<or> mx = None \<or> mn = None
           then Inr (p\<lparr>plotter_max := Some (Fin 1), plotter_min := Some (Fin 0)\<rparr>)
           else if js_seq (the mn) (the mx)
           then (if js_gt (the mn) (Fin 0)
                 then Inr (p\<lparr>plotter_max := mx, plotter_min := Some (Fin 0)\<rparr>)
                 else if js_lt (the mn) (Fin 0)
                 then Inr (p\<lparr>plotter_max := Some (Fin 0), plotter_min := mn\<rparr>)
                 else Inr (p\<lparr>plotter_max := mx, plotter_min := Some (Fin (- 1))\<rparr>))
           else Inr (p\<lparr>plotter_max := mx, plotter_min := mn\<rparr>)))"

text \<open>\<^verbatim>\<open>formatted.lastIndexOf("%") !== -1\<close>: only a string has the method.\<close>

definition has_percent :: "cell \<Rightarrow> js_error + bool" where
  "has_percent c = (case c of Str s \<Rightarrow> Inr (CHR ''%'' \<in> set s) | _ \<Rightarrow> Inl TypeError)"

text \<open>The inner loop of \<^verbatim>\<open>isPercentageFormat\<close>, carrying \<^verbatim>\<open>count\<close>.\<close>

fun isPercentageFormat_line :: "LineDataConverted \<Rightarrow> nat list \<Rightarrow> nat \<Rightarrow> js_error + nat" where
  "isPercentageFormat_line line [] count = Inr count"
| "isPercentageFormat_line line (j # js) count =
     (case row_at (data line) j of
        None \<Rightarrow> Inl TypeError
      | Some p \<Rightarrow>
          (case has_percent (formatted p) of
             Inl e \<Rightarrow> Inl e
           | Inr b \<Rightarrow> isPercentageFormat_line line js (if b then count + 1 else count)))"

text \<open>The outer loop. After the inner loop \<open>j\<close> equals \<^verbatim>\<open>validDataCount\<close>, and
  \<^verbatim>\<open>count < j / 2\<close> is \<open>2 * count < j\<close>.\<close>

fun isPercentageFormat_lines :: "LineChartPlotter \<Rightarrow> nat list \<Rightarrow> js_error + bool" where
  "isPercentageFormat_lines p [] = Inr True"
| "isPercentageFormat_lines p (i # is) =
     (case yData_at p i of
        Inl e \<Rightarrow> Inl e
      | Inr None \<Rightarrow> isPercentageFormat_lines p is
      | Inr (Some line) \<Rightarrow>
          (case isPercentageFormat_line line [0 ..< validDataCount line] 0 of
             Inl e \<Rightarrow> Inl e
           | Inr count \<Rightarrow>
               (if 2 * count < validDataCount line \<or> count = 0 then Inr False
                else isPercentageFormat_lines p is)))"

definition isPercentageFormat :: "LineChartPlotter \<Rightarrow> js_error + bool" where
  "isPercentageFormat p = isPercentageFormat_lines p [0 ..< lineNumber p]"

text \<open>The points of a series that the plotter's loops read: the first
  \<^verbatim>\<open>validDataCount\<close> ones.\<close>

definition counted_points :: "LineDataConverted \<Rightarrow> PointDataOnLine list" where
  "counted_points l = take (validDataCount l) (data l)"

text \<open>The series that the plotter's loops visit: the first \<^verbatim>\<open>lineNumber\<close> ones.\<close>

definition plotted_lines :: "LineChartPlotter \<Rightarrow> LineDataConverted list" where
  "plotted_lines p =
     (case bindingData p of
        None \<Rightarrow> []
      | Some bd \<Rightarrow> (case yData bd of None \<Rightarrow> [] | Some ys \<Rightarrow> take (lineNumber p) ys))"

definition has_yData :: "LineChartPlotter \<Rightarrow> bool" where
  "has_yData p = (case bindingData p of None \<Rightarrow> False | Some bd \<Rightarrow> yData bd \<noteq> None)"

text \<open>The series at the indices of a list, skipping the indices past the end.\<close>

definition lines_at :: "LineDataConverted list \<Rightarrow> nat list \<Rightarrow> LineDataConverted list" where
  "lines_at ys is = concat (map (\<lambda>i. case row_at ys i of None \<Rightarrow> [] | Some l \<Rightarrow> [l]) is)"

text \<open>The number of counted points of a series whose formatted value contains a percent
  sign.\<close>

definition percent_count :: "LineDataConverted \<Rightarrow> nat" where
  "percent_count l =
     length (filter (\<lambda>p. has_percent (formatted p) = Inr True) (counted_points l))"

fun is_Str :: "cell \<Rightarrow> bool" where
  "is_Str (Str s) = True"
| "is_Str _ = False"

text \<open>A series whose counted points exist and have string formatted values: the inner loop
  of \<^verbatim>\<open>isPercentageFormat\<close> reads such a series without throwing, and no other.\<close>

definition formatted_readable :: "LineDataConverted \<Rightarrow> bool" where
  "formatted_readable l =
     (validDataCount l \<le> length (data l)
      \<and> list_all (\<lambda>pt. is_Str (formatted pt)) (counted_points l))"

text \<open>A series that passes the test of the outer loop: the counted values with a percent
  sign are at least half of the counted values, and at least one.\<close>

definition enough_percent :: "LineDataConverted \<Rightarrow> bool" where
  "enough_percent l = (validDataCount l \<le> 2 * percent_count l \<and> percent_count l \<noteq> 0)"

text \<open>A plotter whose binding data has its counted points, none of them \<^verbatim>\<open>NaN\<close>, as
  \<^verbatim>\<open>convert\<close> stores them.\<close>

definition numbers_ready :: "LineChartPlotter \<Rightarrow> bool" where
  "numbers_ready p =
     (has_yData p
      \<and> list_all (\<lambda>l. validDataCount l \<le> length (data l)
                      \<and> list_all (\<lambda>pt. \<not> isNaN (unformatted pt)) (counted_points l))
           (plotted_lines p))"

text \<open>The values that \<^verbatim>\<open>setMaxAndMin\<close> reads, in the order of the loops.\<close>

definition plotted_values :: "LineChartPlotter \<Rightarrow> jsnum list" where
  "plotted_values p = concat (map (\<lambda>l. map unformatted (counted_points l)) (plotted_lines p))"

text \<open>The effect of the body of the inner loop of \<^verbatim>\<open>setMaxAndMin\<close> on a list of values.\<close>

fun max_min_over :: "jsnum list \<Rightarrow> bool \<times> jsnum option \<times> jsnum option \<Rightarrow> bool \<times> jsnum option \<times> jsnum option" where
  "max_min_over [] st = st"
| "max_min_over (t # ts) (isFirstNumber, mx, mn) =
     max_min_over ts
       (False,
        Some (Math_max (to_number (if isFirstNumber then Some t else mx)) t),
        Some (Math_min (to_number (if isFirstNumber then Some t else mn)) t))"

section \<open>Configuration store, configurator and timers\<close>

text \<open>
  A registered change listener is the configurator of the configuration, or some other
  object. Of the other listeners only the calls they receive are recorded; they do not
  call back into the configuration.
\<close>

datatype listener = ConfiguratorListener | Observer nat

text \<open>An entry of \<^verbatim>\<open>delaySetTimeOutIDs\<close>: \<^verbatim>\<open>null\<close> or a timer id.\<close>

datatype timer_slot = SlotNull | SlotId nat

text \<open>A pending timer of \<^verbatim>\<open>delaySet\<close>: its callback sets \<open>timer_key\<close> to \<open>timer_value\<close>.\<close>

record timer =
  timer_id :: nat
  due :: nat
  timer_key :: string
  timer_value :: cvalue

text \<open>
  The state that the configuration code reads and writes: the fields of the
  \<^verbatim>\<open>Configuration\<close> (\<open>keys\<close>, \<open>settings\<close>, \<open>changeListeners\<close>, \<open>delaySetTimeOutIDs\<close>), the
  flag of the \<^verbatim>\<open>Configurator\<close>, the settings of the host document (\<open>None\<close> when
  \<^verbatim>\<open>Office.context.document.settings\<close> is absent) with the history of the saves, the
  window's pending timers and clock, the errors that escaped a timer callback, the store
  of the array objects with the next free address, and two histories kept for stating
  properties: the calls received by the other listeners, and the assignments to
  \<open>settings\<close>.

  \<open>settings\<close> is a JavaScript array used as a table of named properties and
  \<open>delaySetTimeOutIDs\<close> is a plain object; they are represented by the maps of their own
  properties. Two names are not ordinary property names there: \<^verbatim>\<open>__proto__\<close>, which both
  inherit as an accessor of their prototype, and \<^verbatim>\<open>length\<close> on the array.
  \<open>settings_prototype\<close> is the address of the array that an assignment to \<^verbatim>\<open>__proto__\<close> has
  made the prototype of \<open>settings\<close>, if any, and \<open>ids_prototype\<close> tells whether
  \<open>delaySetTimeOutIDs\<close> still has its prototype.
\<close>

record app_state =
  keys :: "string list"
  settings :: "string \<rightharpoonup> cvalue"
  settings_prototype :: "nat option"
  changeListeners :: "listener list"
  delaySetTimeOutIDs :: "string \<rightharpoonup> timer_slot"
  ids_prototype :: bool
  reentryFlag :: bool
  document_settings :: "(string \<rightharpoonup> cvalue) option"
  host_writes :: "(string \<times> cvalue) list"
  notified :: "(nat \<times> string \<times> cvalue) list"
  writes :: "(string \<times> cvalue) list"
  timers :: "timer list"
  last_timer_id :: nat
  clock :: nat
  uncaught :: "js_error list"
  arrays :: "nat \<rightharpoonup> cvalue list"
  next_array :: nat

text \<open>\<^verbatim>\<open>Configurator.save\<close>: writes the host settings and calls \<^verbatim>\<open>saveAsync\<close>.\<close>

definition save :: "string \<Rightarrow> cvalue \<Rightarrow> app_state \<Rightarrow> app_state" where
  "save key val w =
     (case document_settings w of
        None \<Rightarrow> w
      | Some h \<Rightarrow> w\<lparr>document_settings := Some (h(key \<mapsto> val)),
                     host_writes := host_writes w @ [(key, val)]\<rparr>)"

text \<open>\<^verbatim>\<open>onConfigurationChanged\<close> of one listener.\<close>

fun onConfigurationChanged :: "listener \<Rightarrow> string \<Rightarrow> cvalue \<Rightarrow> app_state \<Rightarrow> app_state" where
  "onConfigurationChanged ConfiguratorListener key val w =
     (if \<not> reentryFlag w then save key val w else w)"
| "onConfigurationChanged (Observer n) key val w = w\<lparr>notified := notified w @ [(n, key, val)]\<rparr>"

text \<open>\<^verbatim>\<open>changeListeners.forEach\<close>.\<close>

fun notify_listeners :: "listener list \<Rightarrow> string \<Rightarrow> cvalue \<Rightarrow> app_state \<Rightarrow> app_state" where
  "notify_listeners [] key val w = w"
| "notify_listeners (l # ls) key val w = notify_listeners ls key val (onConfigurationChanged l key val w)"

text \<open>\<^verbatim>\<open>Configuration.set\<close> at a key that is an ordinary property name, as every key of
  \<^verbatim>\<open>App.configurationKeys\<close> and every well-known key is; the validator rejects a \<^verbatim>\<open>null\<close>
  value before anything is written.\<close>

definition Configuration_set :: "string \<Rightarrow> cvalue \<Rightarrow> bool \<Rightarrow> app_state \<Rightarrow> js_error + app_state" where
  "Configuration_set key val notifyListeners w =
     (if val = VNull then Inl ParameterIsNull
      else (let w1 = w\<lparr>settings := (settings w)(key \<mapsto> val), writes := writes w @ [(key, val)]\<rparr>
            in Inr (if notifyListeners then notify_listeners (changeListeners w1) key val w1 else w1)))"

definition Configuration_get :: "string \<Rightarrow> app_state \<Rightarrow> cvalue" where
  "Configuration_get key w = (case settings w key of None \<Rightarrow> VNull | Some v \<Rightarrow> v)"

text \<open>
  \<^verbatim>\<open>Configuration.clear\<close> is \<^verbatim>\<open>this.settings.length = 0\<close> on the array that holds the
  settings as named properties: it removes the properties whose name is an array index,
  and no other.
\<close>

definition is_array_index :: "string \<Rightarrow> bool" where
  "is_array_index s =
     (s \<noteq> [] \<and> list_all (\<lambda>c. c \<in> set ''0123456789'') s \<and> (s = ''0'' \<or> s ! 0 \<noteq> CHR ''0'')
      \<and> foldl (\<lambda>n c. 10 * n + (of_char c - 48)) (0::nat) s < 4294967295)"

definition clear :: "app_state \<Rightarrow> app_state" where
  "clear w = w\<lparr>settings := (\<lambda>k. if is_array_index k then None else settings w k)\<rparr>"

text \<open>The loop of \<^verbatim>\<open>Configurator.loadAll\<close> over the keys.\<close>

fun loadAll_keys :: "string list \<Rightarrow> app_state \<Rightarrow> js_error + app_state" where
  "loadAll_keys [] w = Inr w"
| "loadAll_keys (key # ks) w =
     (case document_settings w of
        None \<Rightarrow> Inl TypeError
      | Some h \<Rightarrow>
          (case h key of
             None \<Rightarrow> loadAll_keys ks w
           | Some val \<Rightarrow>
               (if val \<noteq> VNull
                then (case Configuration_set key val True w of
                        Inl e \<Rightarrow> Inl e
                      | Inr w' \<Rightarrow> loadAll_keys ks w')
                else loadAll_keys ks w)))"

text \<open>\<^verbatim>\<open>Configurator.loadAll\<close>, reached through \<^verbatim>\<open>Configuration.loadAll\<close>. An exception in
  the loop leaves before the flag is reset.\<close>

definition loadAll :: "app_state \<Rightarrow> js_error + app_state" where
  "loadAll w =
     (case document_settings w of
        None \<Rightarrow> Inr w
      | Some h \<Rightarrow>
          (case loadAll_keys (keys w) ((clear w)\<lparr>reentryFlag := True\<rparr>) of
             Inl e \<Rightarrow> Inl e
           | Inr w' \<Rightarrow> Inr (w'\<lparr>reentryFlag := False\<rparr>)))"


text \<open>The number that the name of an array index denotes.\<close>

definition index_value :: "string \<Rightarrow> nat" where
  "index_value s = foldl (\<lambda>n c. 10 * n + (of_char c - 48)) (0::nat) s"

text \<open>
  The conversion applied by an assignment to the \<^verbatim>\<open>length\<close> of an array: the value is
  converted with \<^verbatim>\<open>ToNumber\<close>, and the result has to be an integer from 0 to 4294967295.
  \<^verbatim>\<open>ToNumber\<close> of a string, and of an array (which goes through the string form of its
  elements), is the host's and is the parameter \<open>toNumber\<close>, given the store of arrays.
\<close>

definition array_length_of :: "((nat \<rightharpoonup> cvalue list) \<Rightarrow> cvalue \<Rightarrow> jsnum) \<Rightarrow> (nat \<rightharpoonup> cvalue list) \<Rightarrow> cvalue \<Rightarrow> nat option" where
  "array_length_of toNumber store v =
     (case (case v of
              VNum n \<Rightarrow> n
            | VBool b \<Rightarrow> Fin (if b then 1 else 0)
            | _ \<Rightarrow> toNumber store v) of
        Fin r \<Rightarrow> if 0 \<le> r \<and> r < 4294967296 \<and> real_of_int \<lfloor>r\<rfloor> = r then Some (nat \<lfloor>r\<rfloor>) else None
      | _ \<Rightarrow> None)"

text \<open>
  \<^verbatim>\<open>Configuration.set\<close> at any key. The assignment \<^verbatim>\<open>this.settings[key] = value\<close> at the
  name \<^verbatim>\<open>__proto__\<close> (when the array has no own property of that name) calls the inherited
  setter: an array becomes the prototype of \<open>settings\<close>, any other value is ignored, and
  no property is written. At the name \<^verbatim>\<open>length\<close> it sets the length of the array: it
  throws a \<^verbatim>\<open>RangeError\<close> for a value that is no array length, and otherwise removes the
  properties whose name is an array index not below the new length. The listeners are
  notified in both cases.
\<close>

definition Configuration_set_any ::
  "((nat \<rightharpoonup> cvalue list) \<Rightarrow> cvalue \<Rightarrow> jsnum) \<Rightarrow> string \<Rightarrow> cvalue \<Rightarrow> bool \<Rightarrow> app_state \<Rightarrow> js_error + app_state" where
  "Configuration_set_any toNumber key val notifyListeners w =
     (if val = VNull then Inl ParameterIsNull
      else if key = ''__proto__'' \<and> settings w key = None
      then (let w1 = (case val of VArray a \<Rightarrow> w\<lparr>settings_prototype := Some a\<rparr> | _ \<Rightarrow> w)
            in Inr (if notifyListeners then notify_listeners (changeListeners w1) key val w1 else w1))
      else if key = ''length''
      then (case array_length_of toNumber (arrays w) val of
              None \<Rightarrow> Inl RangeError
            | Some n \<Rightarrow>
                (let w1 = w\<lparr>settings := (\<lambda>k. if is_array_index k \<and> n \<le> index_value k then None
                                              else settings w k),
                            writes := writes w @ [(key, val)]\<rparr>
                 in Inr (if notifyListeners then notify_listeners (changeListeners w1) key val w1 else w1)))
      else Configuration_set key val notifyListeners w)"

text \<open>The window's timers. \<^verbatim>\<open>setTimeout\<close> returns a fresh positive id.\<close>

definition setTimeout :: "string \<Rightarrow> cvalue \<Rightarrow> nat \<Rightarrow> app_state \<Rightarrow> nat \<times> app_state" where
  "setTimeout key val delay w =
     (let n = Suc (last_timer_id w)
      in (n, w\<lparr>timers := timers w @ [\<lparr>timer_id = n, due = clock w + delay, timer_key = key, timer_value = val\<rparr>],
               last_timer_id := n\<rparr>))"

definition clearTimeout :: "nat \<Rightarrow> app_state \<Rightarrow> app_state" where
  "clearTimeout n w = w\<lparr>timers := filter (\<lambda>t. timer_id t \<noteq> n) (timers w)\<rparr>"

text \<open>
  The assignment \<^verbatim>\<open>this.delaySetTimeOutIDs[key] = v\<close>, where \<open>v\<close> is a timer id or \<^verbatim>\<open>null\<close>.
  At the name \<^verbatim>\<open>__proto__\<close>, while the object has its prototype and no own property of
  that name, the inherited setter is called: it ignores a number, and with \<^verbatim>\<open>null\<close> it
  removes the prototype of the object; no entry is written.
\<close>

definition ids_assign :: "string \<Rightarrow> timer_slot \<Rightarrow> app_state \<Rightarrow> app_state" where
  "ids_assign key slot w =
     (if key = ''__proto__'' \<and> ids_prototype w \<and> delaySetTimeOutIDs w key = None
      then (case slot of SlotNull \<Rightarrow> w\<lparr>ids_prototype := False\<rparr> | SlotId n \<Rightarrow> w)
      else w\<lparr>delaySetTimeOutIDs := (delaySetTimeOutIDs w)(key \<mapsto> slot)\<rparr>)"

text \<open>
  \<^verbatim>\<open>Configuration.delaySet\<close>. The test \<^verbatim>\<open>if (this.delaySetTimeOutIDs[key])\<close> holds for an id
  other than 0. Where the object has no entry of the name, the read gives \<^verbatim>\<open>undefined\<close>, or
  the function or object that the name denotes in the prototype, and \<^verbatim>\<open>clearTimeout\<close> of
  that cancels no timer.
\<close>

definition delaySet :: "string \<Rightarrow> cvalue \<Rightarrow> nat \<Rightarrow> app_state \<Rightarrow> app_state" where
  "delaySet key val delay w =
     (let w1 = (case delaySetTimeOutIDs w key of
                  Some (SlotId n) \<Rightarrow> if n \<noteq> 0 then clearTimeout n w else w
                | _ \<Rightarrow> w);
          (n, w2) = setTimeout key val delay w1
      in ids_assign key (SlotId n) w2)"

text \<open>The callback of a \<^verbatim>\<open>delaySet\<close> timer: \<^verbatim>\<open>set(key, value)\<close>, then the entry of the key
  becomes \<^verbatim>\<open>null\<close>. When \<^verbatim>\<open>set\<close> throws the callback ends there.\<close>

definition timer_callback :: "((nat \<rightharpoonup> cvalue list) \<Rightarrow> cvalue \<Rightarrow> jsnum) \<Rightarrow> timer \<Rightarrow> app_state \<Rightarrow> app_state" where
  "timer_callback toNumber t w =
     (case Configuration_set_any toNumber (timer_key t) (timer_value t) True w of
        Inl e \<Rightarrow> w\<lparr>uncaught := uncaught w @ [e]\<rparr>
      | Inr w' \<Rightarrow> ids_assign (timer_key t) SlotNull w')"

text \<open>The pending timer that fires next: the earliest due one, the oldest among equals.\<close>

fun earliest :: "timer list \<Rightarrow> timer option" where
  "earliest [] = None"
| "earliest (t # ts) =
     (case earliest ts of
        None \<Rightarrow> Some t
      | Some t' \<Rightarrow> if due t \<le> due t' then Some t else Some t')"

definition fire :: "((nat \<rightharpoonup> cvalue list) \<Rightarrow> cvalue \<Rightarrow> jsnum) \<Rightarrow> timer \<Rightarrow> app_state \<Rightarrow> app_state" where
  "fire toNumber t w =
     timer_callback toNumber t
       (w\<lparr>timers := filter (\<lambda>t'. timer_id t' \<noteq> timer_id t) (timers w),
          clock := max (clock w) (due t)\<rparr>)"

text \<open>The event loop up to a deadline: the due timers fire one after the other.\<close>

function run_timers :: "((nat \<rightharpoonup> cvalue list) \<Rightarrow> cvalue \<Rightarrow> jsnum) \<Rightarrow> nat \<Rightarrow> app_state \<Rightarrow> app_state" where
  "run_timers toNumber deadline w =
     (case earliest (timers w) of
        None \<Rightarrow> w\<lparr>clock := max (clock w) deadline\<rparr>
      | Some t \<Rightarrow>
          if due t \<le> deadline then run_timers toNumber deadline (fire toNumber t w)
          else w\<lparr>clock := max (clock w) deadline\<rparr>)"
  by pat_completeness auto
termination
proof (relation "measure (\<lambda>(toNumber, deadline, w). length (timers w))")
  show "wf (measure (\<lambda>(toNumber, deadline, w). length (timers w)))" by simp
next
  fix toNumber :: "(nat \<rightharpoonup> cvalue list) \<Rightarrow> cvalue \<Rightarrow> jsnum"
  fix deadline :: nat and w :: app_state and t :: timer
  assume e: "earliest (timers w) = Some t"
  have n: "timers (notify_listeners ls k v w') = timers w'" for ls k v w'
  proof (induction ls arbitrary: w')
    case Nil
    show ?case by simp
  next
    case (Cons l ls)
    have "timers (onConfigurationChanged l k v w') = timers w'"
      by (cases l) (simp_all add: save_def split: option.splits)
    with Cons show ?case by simp
  qed
  have c: "timers (timer_callback toNumber t w') = timers w'" for w'
    by (simp add: timer_callback_def Configuration_set_any_def Configuration_set_def ids_assign_def
          Let_def n split: option.splits cvalue.splits timer_slot.splits)
  have "earliest ts = Some t' \<Longrightarrow> t' \<in> set ts" for ts t'
    by (induction ts arbitrary: t') (auto split: option.splits if_splits)
  from this [OF e]
  have "length (filter (\<lambda>t'. timer_id t' \<noteq> timer_id t) (timers w)) < length (timers w)"
    by (rule length_filter_less) simp
  then show "((toNumber, deadline, fire toNumber t w), (toNumber, deadline, w))
             \<in> measure (\<lambda>(toNumber, deadline, w). length (timers w))"
    by (simp add: fire_def c)
qed

declare run_timers.simps [simp del]

text \<open>Time passes: \<open>ms\<close> milliseconds during which the due timers fire.\<close>

definition elapse :: "((nat \<rightharpoonup> cvalue list) \<Rightarrow> cvalue \<Rightarrow> jsnum) \<Rightarrow> nat \<Rightarrow> app_state \<Rightarrow> app_state" where
  "elapse toNumber ms w = run_timers toNumber (clock w + ms) w"

section \<open>Per-line chart state\<close>

text \<open>
  \<^verbatim>\<open>Utils.stringFormat\<close> replaces every match of \<^verbatim>\<open>/{(\d+)}/\<close> in its first argument: by
  the argument of that number when there is one (the empty string when it is \<^verbatim>\<open>null\<close>),
  by the match itself otherwise. The arguments after the first are given by their string
  forms, \<open>None\<close> for \<^verbatim>\<open>null\<close> or \<^verbatim>\<open>undefined\<close>.
\<close>

definition is_digit :: "char \<Rightarrow> bool" where
  "is_digit c = (c \<in> set ''0123456789'')"

definition digit_val :: "char \<Rightarrow> nat" where
  "digit_val c = of_char c - 48"

text \<open>\<^verbatim>\<open>parseInt(number, 10)\<close> on a string of decimal digits.\<close>

definition parseInt10 :: "string \<Rightarrow> nat" where
  "parseInt10 ds = foldl (\<lambda>n c. 10 * n + digit_val c) 0 ds"

text \<open>A match of the pattern at the start of a string: its digits and its length.\<close>

definition placeholder_at :: "string \<Rightarrow> (string \<times> nat) option" where
  "placeholder_at s =
     (case s of
        [] \<Rightarrow> None
      | c # rest \<Rightarrow>
          if c = CHR ''{''
          then (let ds = takeWhile is_digit rest
                in if ds \<noteq> [] \<and> (case drop (length ds) rest of [] \<Rightarrow> False | c' # _ \<Rightarrow> c' = CHR ''}'')
                   then Some (ds, length ds + 2) else None)
          else None)"

text \<open>The scan from left to right; \<open>skip\<close> counts the characters of a match still to pass.\<close>

fun stringFormat_scan :: "string option list \<Rightarrow> nat \<Rightarrow> string \<Rightarrow> string" where
  "stringFormat_scan args skip [] = []"
| "stringFormat_scan args skip (c # cs) =
     (if skip > 0 then stringFormat_scan args (skip - 1) cs
      else (case placeholder_at (c # cs) of
              None \<Rightarrow> c # stringFormat_scan args 0 cs
            | Some (ds, len) \<Rightarrow>
                (let index = parseInt10 ds + 1
                 in (if index \<ge> length args then take len (c # cs)
                     else (case args ! index of None \<Rightarrow> [] | Some a \<Rightarrow> a)))
                @ stringFormat_scan args (len - 1) cs))"

definition stringFormat :: "string \<Rightarrow> string option list \<Rightarrow> string" where
  "stringFormat source params = stringFormat_scan (Some source # params) 0 source"

text \<open>\<^verbatim>\<open>Number.prototype.toString\<close> on a natural number: its decimal digits.\<close>

definition digit_char :: "nat \<Rightarrow> char" where
  "digit_char d = ''0123456789'' ! d"

fun number_toString :: "nat \<Rightarrow> string" where
  "number_toString n =
     (if 10 \<le> n then number_toString (n div 10) @ [digit_char (n mod 10)] else [digit_char n])"

declare number_toString.simps [simp del]

text \<open>The well-known keys of the per-line chart state.\<close>

definition key_clickedPointIdArray :: string where
  "key_clickedPointIdArray = ''clicked-pointid-array''"

definition key_lineOrder :: string where
  "key_lineOrder = ''line-order''"

definition key_lineDisplay :: string where
  "key_lineDisplay = ''line-display''"

definition key_lineTitleArray :: string where
  "key_lineTitleArray = ''line-title-array''"

definition key_isLegendEdited :: string where
  "key_isLegendEdited = ''is-legend-edited''"

text \<open>The assignment \<^verbatim>\<open>temp[i] = v\<close> on an array of values.\<close>

definition value_array_set :: "cvalue list \<Rightarrow> nat \<Rightarrow> cvalue \<Rightarrow> cvalue list" where
  "value_array_set xs k v =
     (if k < length xs then xs[k := v]
      else xs @ replicate (k - length xs) VNull @ [v])"

text \<open>
  A new array object in the store, with the given elements. The functions below fill
  a local array and then hand it to \<^verbatim>\<open>Configuration.set\<close>; the array enters the store
  with the elements it has at that moment.
\<close>

definition new_array :: "cvalue list \<Rightarrow> app_state \<Rightarrow> nat \<times> app_state" where
  "new_array xs w =
     (next_array w, w\<lparr>arrays := (arrays w)(next_array w \<mapsto> xs), next_array := Suc (next_array w)\<rparr>)"

definition resetClickedPointIdArrays :: "app_state \<Rightarrow> js_error + app_state" where
  "resetClickedPointIdArrays w =
     (case new_array [] w of
        (a, w1) \<Rightarrow> Configuration_set key_clickedPointIdArray (VArray a) True w1)"

fun resetLineOrder_loop :: "nat list \<Rightarrow> cvalue list \<Rightarrow> cvalue list" where
  "resetLineOrder_loop [] tempLineOrder = tempLineOrder"
| "resetLineOrder_loop (i # is) tempLineOrder =
     resetLineOrder_loop is (value_array_set tempLineOrder i (VNum (Fin (real i))))"

definition resetLineOrder :: "app_state \<Rightarrow> js_error + app_state" where
  "resetLineOrder w =
     (case new_array (resetLineOrder_loop [0 ..< nat MaxLineNumber] []) w of
        (a, w1) \<Rightarrow> Configuration_set key_lineOrder (VArray a) True w1)"

fun resetLineDisplay_loop :: "nat list \<Rightarrow> cvalue list \<Rightarrow> cvalue list" where
  "resetLineDisplay_loop [] tempLineDisplay = tempLineDisplay"
| "resetLineDisplay_loop (i # is) tempLineDisplay =
     resetLineDisplay_loop is (value_array_set tempLineDisplay i (VBool True))"

definition resetLineDisplay :: "app_state \<Rightarrow> js_error + app_state" where
  "resetLineDisplay w =
     (case new_array (resetLineDisplay_loop [0 ..< nat MaxLineNumber] []) w of
        (a, w1) \<Rightarrow> Configuration_set key_lineDisplay (VArray a) True w1)"

text \<open>The resource string \<^verbatim>\<open>DataViz.Resources.UI.defaultLegendName\<close> is the parameter
  \<open>defaultLegendName\<close>.\<close>

fun resetLineTitleArray_loop :: "string \<Rightarrow> nat list \<Rightarrow> cvalue list \<Rightarrow> cvalue list" where
  "resetLineTitleArray_loop defaultLegendName [] tempLineTitleArray = tempLineTitleArray"
| "resetLineTitleArray_loop defaultLegendName (i # is) tempLineTitleArray =
     resetLineTitleArray_loop defaultLegendName is
       (value_array_set tempLineTitleArray i
          (VStr (stringFormat defaultLegendName [Some (number_toString (i + 1))])))"

text \<open>Sequencing of calls that may throw.\<close>

definition and_then :: "js_error + 'a \<Rightarrow> ('a \<Rightarrow> js_error + 'b) \<Rightarrow> js_error + 'b" where
  "and_then r f = (case r of Inl e \<Rightarrow> Inl e | Inr x \<Rightarrow> f x)"

definition resetLineTitleArray :: "string \<Rightarrow> app_state \<Rightarrow> js_error + app_state" where
  "resetLineTitleArray defaultLegendName w =
     (case new_array (resetLineTitleArray_loop defaultLegendName [0 ..< nat MaxLineNumber] []) w of
        (a, w1) \<Rightarrow>
          and_then (Configuration_set key_lineTitleArray (VArray a) True w1)
            (Configuration_set key_isLegendEdited (VBool False) True))"

text \<open>
  \<^verbatim>\<open>LineChartPlotter.onDataChanged\<close>. \<open>newData = None\<close> is a missing argument; reading
  \<^verbatim>\<open>.length\<close> of a \<^verbatim>\<open>yData\<close> that is \<^verbatim>\<open>null\<close> throws.
\<close>

definition onDataChanged :: "string \<Rightarrow> LineChartPlotter \<Rightarrow> BindingData option \<Rightarrow> app_state \<Rightarrow> js_error + app_state" where
  "onDataChanged defaultLegendName p newData w =
     (case bindingData p of
        None \<Rightarrow> Inr w
      | Some old \<Rightarrow>
          (case newData of
             None \<Rightarrow> Inr w
           | Some new \<Rightarrow>
               and_then
                 (if length (xData new) \<noteq> length (xData old) then resetClickedPointIdArrays w else Inr w)
                 (\<lambda>w1. case yData new of
                         None \<Rightarrow> Inl TypeError
                       | Some ys_new \<Rightarrow>
                           (case yData old of
                              None \<Rightarrow> Inl TypeError
                            | Some ys_old \<Rightarrow>
                                if length ys_new \<noteq> length ys_old
                                then and_then (resetClickedPointIdArrays w1)
                                       (\<lambda>w2. and_then (resetLineOrder w2)
                                         (\<lambda>w3. and_then (resetLineDisplay w3)
                                           (resetLineTitleArray defaultLegendName)))
                                else Inr w1))))"

text \<open>A header cell as a configuration value.\<close>

definition cell_value :: "cell \<Rightarrow> cvalue" where
  "cell_value c =
     (case c of
        Undefined \<Rightarrow> VNull
      | Null \<Rightarrow> VNull
      | Str s \<Rightarrow> VStr s
      | Number n \<Rightarrow> VNum n
      | Boolean b \<Rightarrow> VBool b)"

text \<open>The assignment \<^verbatim>\<open>xs.length = n\<close> on an array: it drops the elements from \<open>n\<close> on, or
  extends the array to \<open>n\<close> elements.\<close>

definition array_set_length :: "cvalue list \<Rightarrow> nat \<Rightarrow> cvalue list" where
  "array_set_length xs n = take n xs @ replicate (n - length xs) VNull"

text \<open>
  The statement \<^verbatim>\<open>v.length = n\<close> of \<^verbatim>\<open>initData\<close>, whose module is not in strict mode: on a
  reference to an array it changes the array of the store, seen by every holder of the
  reference; on \<^verbatim>\<open>null\<close> or \<^verbatim>\<open>undefined\<close> it throws; on any other value it does nothing.
\<close>

definition assign_length :: "cvalue \<Rightarrow> nat \<Rightarrow> app_state \<Rightarrow> js_error + app_state" where
  "assign_length v n w =
     (case v of
        VNull \<Rightarrow> Inl TypeError
      | VArray a \<Rightarrow>
          (case arrays w a of
             None \<Rightarrow> Inr w
           | Some xs \<Rightarrow> Inr (w\<lparr>arrays := (arrays w)(a \<mapsto> array_set_length xs n)\<rparr>))
      | _ \<Rightarrow> Inr w)"

text \<open>
  \<^verbatim>\<open>LineChartPlotter.initData\<close>, on the plotter and the configuration, up to the call of
  \<^verbatim>\<open>setMaxAndMin\<close>; the sizes that it then reads from the page are not represented.
  \<^verbatim>\<open>xData\<close> is always an array. The header that is stored as \<^verbatim>\<open>lineTitleArray\<close> enters the
  store of arrays with the header's cells (in the program it is the header array of the
  binding data itself, which none of the functions here changes afterwards).
  \<^verbatim>\<open>this.lineOrder\<close> and \<^verbatim>\<open>this.lineDisplay\<close> are the references that \<^verbatim>\<open>get\<close> returned, so
  that setting their \<^verbatim>\<open>length\<close> changes the arrays that the configuration stores.
\<close>

definition initData :: "string \<Rightarrow> BindingData \<Rightarrow> LineChartPlotter \<times> app_state
                         \<Rightarrow> js_error + LineChartPlotter \<times> app_state" where
  "initData defaultLegendName convertedData st =
     (case st of (p, w) \<Rightarrow>
        (case yData convertedData of
           None \<Rightarrow> Inr (p, w)
         | Some ys \<Rightarrow>
             (let saved = Configuration_get key_isLegendEdited w;
                  edited = (if saved = VNull then VBool False else saved)
              in and_then
                   (if saved = VNull then Configuration_set key_isLegendEdited edited True w else Inr w)
                   (\<lambda>w1. and_then
                      (if \<not> truthy edited \<and> length (header convertedData) \<noteq> 0
                       then (case new_array (map cell_value (header convertedData)) w1 of
                               (a, w1') \<Rightarrow> Configuration_set key_lineTitleArray (VArray a) True w1')
                       else Inr w1)
                   (\<lambda>w2. and_then
                      (if \<not> truthy (Configuration_get key_clickedPointIdArray w2)
                       then resetClickedPointIdArrays w2 else Inr w2)
                   (\<lambda>w3. and_then
                      (if \<not> truthy (Configuration_get key_lineOrder w3)
                       then resetLineOrder w3 else Inr w3)
                   (\<lambda>w4. and_then
                      (if \<not> truthy (Configuration_get key_lineDisplay w4)
                       then resetLineDisplay w4 else Inr w4)
                   (\<lambda>w5. and_then
                      (if \<not> truthy (Configuration_get key_lineTitleArray w5)
                       then resetLineTitleArray defaultLegendName w5 else Inr w5)
                   (\<lambda>w6.
                      (let p1 = p\<lparr>bindingData := Some convertedData,
                                  isLegendEdited := edited,
                                  clickedPointIdArray := Configuration_get key_clickedPointIdArray w6,
                                  lineOrder := Configuration_get key_lineOrder w6,
                                  lineDisplay := Configuration_get key_lineDisplay w6,
                                  lineTitleArray := Configuration_get key_lineTitleArray w6,
                                  lineNumber := length ys,
                                  columnNumber := length (xData convertedData)\<rparr>
                       in and_then (assign_length (lineOrder p1) (lineNumber p1) w6)
                          (\<lambda>w7. and_then (assign_length (lineDisplay p1) (lineNumber p1) w7)
                          (\<lambda>w8. and_then (setMaxAndMin p1)
                          (\<lambda>p2. Inr (p2, w8))))))))))))))"

text \<open>
  \<^verbatim>\<open>LineChartPlotter.plot\<close>, the only caller of \<^verbatim>\<open>onDataChanged\<close> and of \<^verbatim>\<open>initData\<close>.
  \<open>data = None\<close> is a missing argument. \<^verbatim>\<open>drawLineChart\<close>, which follows, renders the
  chart from the fields set here and writes neither the configuration nor the arrays.
\<close>

definition plot :: "string \<Rightarrow> BindingData option \<Rightarrow> LineChartPlotter \<times> app_state
                     \<Rightarrow> js_error + LineChartPlotter \<times> app_state" where
  "plot defaultLegendName data0 st =
     (case st of (p, w) \<Rightarrow>
        (case data0 of
           None \<Rightarrow> Inr (p, w)
         | Some d \<Rightarrow>
             if length (xData d) > 0
             then (case yData d of
                     None \<Rightarrow> Inl TypeError
                   | Some ys \<Rightarrow>
                       if length ys > 0
                       then and_then (onDataChanged defaultLegendName p (Some d) w)
                              (\<lambda>w1. initData defaultLegendName d (p, w1))
                       else Inr (p, w))
             else Inr (p, w)))"

text \<open>The length of the array stored under a key, if an array is stored there.\<close>

definition setting_length :: "app_state \<Rightarrow> string \<Rightarrow> nat option" where
  "setting_length w key =
     (case settings w key of
        Some (VArray a) \<Rightarrow> map_option length (arrays w a)
      | _ \<Rightarrow> None)"

text \<open>The listeners other than the configurator, in registration order.\<close>

fun observers :: "listener list \<Rightarrow> nat list" where
  "observers [] = []"
| "observers (ConfiguratorListener # ls) = observers ls"
| "observers (Observer n # ls) = n # observers ls"

text \<open>The pairs that the loop of \<^verbatim>\<open>loadAll\<close> sets: the keys with a value in the host
  settings that is not \<^verbatim>\<open>null\<close>.\<close>

fun loaded_values :: "string list \<Rightarrow> (string \<rightharpoonup> cvalue) \<Rightarrow> (string \<times> cvalue) list" where
  "loaded_values [] h = []"
| "loaded_values (key # ks) h =
     (case h key of
        None \<Rightarrow> loaded_values ks h
      | Some val \<Rightarrow> if val \<noteq> VNull then (key, val) # loaded_values ks h else loaded_values ks h)"

text \<open>The calls that the listeners other than the configurator receive for one
  notified pair.\<close>

definition notifications :: "listener list \<Rightarrow> string \<times> cvalue \<Rightarrow> (nat \<times> string \<times> cvalue) list" where
  "notifications ls kv = map (\<lambda>n. (n, fst kv, snd kv)) (observers ls)"

section \<open>Histories and the timer invariant\<close>


text \<open>What the configurator saves when the listeners are notified of a pair: nothing while
  its flag is set or without host settings, the pair otherwise (once for each time it is
  registered).\<close>

definition persisted :: "app_state \<Rightarrow> string \<times> cvalue \<Rightarrow> (string \<times> cvalue) list" where
  "persisted w kv =
     (if \<not> reentryFlag w \<and> document_settings w \<noteq> None
      then replicate (count_list (changeListeners w) ConfiguratorListener) kv else [])"



text \<open>What a \<^verbatim>\<open>set\<close> and a timer leave alone: the listeners, the flag, the presence of
  the host settings.\<close>

definition env :: "app_state \<Rightarrow> listener list \<times> bool \<times> bool" where
  "env w = (changeListeners w, reentryFlag w, document_settings w \<noteq> None)"







section \<open>Example inputs\<close>

text \<open>
  A string parser for the examples: it agrees with the host's \<^verbatim>\<open>parseFloat\<close> on strings of
  decimal digits and on strings without a numeric prefix such as month names.
\<close>

definition parse_digits :: "string \<Rightarrow> jsnum" where
  "parse_digits s = (if s \<noteq> [] \<and> list_all is_digit s then Fin (real (parseInt10 s)) else NaN)"

text \<open>The selection \<^verbatim>\<open>[["Time","A","B"],["Jan","10","20"],["Feb","30","40"]]\<close>.\<close>

definition example_raw :: RawData where
  "example_raw =
     \<lparr>hasHeader = True,
      raw_formatted = Some [[Str ''Time'', Str ''A'', Str ''B''],
                            [Str ''Jan'', Str ''10'', Str ''20''],
                            [Str ''Feb'', Str ''30'', Str ''40'']],
      raw_unformatted = Some [[Str ''Time'', Str ''A'', Str ''B''],
                              [Str ''Jan'', Number (Fin 10), Number (Fin 20)],
                              [Str ''Feb'', Number (Fin 30), Number (Fin 40)]]\<rparr>"

definition example_line :: LineDataConverted where
  "example_line =
     \<lparr>validDataCount = 2,
      data = [\<lparr>originalIndex = 0, formatted = Str ''10'', unformatted = Fin 10\<rparr>,
              \<lparr>originalIndex = 1, formatted = Str ''30'', unformatted = Fin 30\<rparr>]\<rparr>"

definition example_binding :: BindingData where
  "example_binding =
     \<lparr>header = [Str ''A'', Str ''B''],
      xData = [Str ''Jan'', Str ''Feb''],
      yData = Some [example_line,
                    \<lparr>validDataCount = 2,
                     data = [\<lparr>originalIndex = 0, formatted = Str ''20'', unformatted = Fin 20\<rparr>,
                             \<lparr>originalIndex = 1, formatted = Str ''40'', unformatted = Fin 40\<rparr>]\<rparr>]\<rparr>"

text \<open>The selection \<^verbatim>\<open>[["Jan","10","20"],["Feb","30","40"]]\<close>, without header, and its
  conversion.\<close>

definition headerless_raw :: RawData where
  "headerless_raw =
     \<lparr>hasHeader = False,
      raw_formatted = Some [[Str ''Jan'', Str ''10'', Str ''20''],
                            [Str ''Feb'', Str ''30'', Str ''40'']],
      raw_unformatted = Some [[Str ''Jan'', Number (Fin 10), Number (Fin 20)],
                              [Str ''Feb'', Number (Fin 30), Number (Fin 40)]]\<rparr>"

definition headerless_binding :: BindingData where
  "headerless_binding =
     \<lparr>header = [],
      xData = [Str ''Jan'', Str ''Feb''],
      yData = Some [example_line,
                    \<lparr>validDataCount = 2,
                     data = [\<lparr>originalIndex = 0, formatted = Str ''20'', unformatted = Fin 20\<rparr>,
                             \<lparr>originalIndex = 1, formatted = Str ''40'', unformatted = Fin 40\<rparr>]\<rparr>]\<rparr>"

text \<open>A selection whose formatted matrix has no row at all.\<close>

definition empty_raw :: RawData where
  "empty_raw = \<lparr>hasHeader = False, raw_formatted = Some [], raw_unformatted = Some []\<rparr>"

text \<open>The invariant of the inner loop of \<^verbatim>\<open>convert\<close> at row offset \<open>k\<close>: the series are
  well formed, and the lines in \<open>J\<close>, still to be visited, have no point of this row.\<close>

definition row_inv :: "nat \<Rightarrow> nat set \<Rightarrow> LineDataConverted list \<Rightarrow> bool" where
  "row_inv k J ys = (\<forall>n < length ys. line_ok (ys ! n)
      \<and> (\<forall>p \<in> set (data (ys ! n)). if n \<in> J then originalIndex p < k else originalIndex p \<le> k))"

text \<open>A configuration right after its construction and the registration of one more
  listener, in a document whose settings hold a theme.\<close>

definition example_state :: app_state where
  "example_state =
     \<lparr>keys = [''theme'', key_lineOrder, key_lineDisplay, key_lineTitleArray],
      settings = Map.empty,
      settings_prototype = None,
      changeListeners = [ConfiguratorListener, Observer 1],
      delaySetTimeOutIDs = Map.empty,
      ids_prototype = True,
      reentryFlag = False,
      document_settings = Some [''theme'' \<mapsto> VStr ''pastel''],
      host_writes = [],
      notified = [],
      writes = [],
      timers = [],
      last_timer_id = 0,
      clock = 0,
      uncaught = [],
      arrays = Map.empty,
      next_array = 0\<rparr>"


text \<open>
  A conversion to numbers for the examples: it agrees with the host's \<^verbatim>\<open>ToNumber\<close> on the
  strings of decimal digits, on the empty string, on the strings without digits and on
  the empty array.
\<close>

definition digits_toNumber :: "(nat \<rightharpoonup> cvalue list) \<Rightarrow> cvalue \<Rightarrow> jsnum" where
  "digits_toNumber store v =
     (case v of
        VStr s \<Rightarrow> if s = [] then Fin 0 else parse_digits s
      | VArray a \<Rightarrow> (case store a of Some [] \<Rightarrow> Fin 0 | _ \<Rightarrow> NaN)
      | _ \<Rightarrow> NaN)"

text \<open>The invariant of the loops of \<^verbatim>\<open>setMaxAndMin\<close> once a first number has been read:
  both bounds are values of \<open>S\<close>, neither is \<^verbatim>\<open>NaN\<close>, and the maximum is not below the
  minimum.\<close>

definition range_inv :: "jsnum set \<Rightarrow> bool \<times> jsnum option \<times> jsnum option \<Rightarrow> bool" where
  "range_inv S st = (case st of (first, mx, mn) \<Rightarrow>
      \<not> first \<and> (\<exists>hi lo. mx = Some hi \<and> mn = Some lo \<and> hi \<in> S \<and> lo \<in> S
                     \<and> \<not> isNaN hi \<and> \<not> isNaN lo \<and> \<not> js_lt hi lo))"

definition example_plotter :: LineChartPlotter where
  "example_plotter =
     \<lparr>bindingData = Some example_binding, lineNumber = 2, columnNumber = 2,
      plotter_max = None, plotter_min = None, isLegendEdited = VNull, clickedPointIdArray = VNull,
      lineOrder = VNull, lineDisplay = VNull, lineTitleArray = VNull\<rparr>"

text \<open>A chart with one series of one point, of value 5.\<close>

definition single_binding :: BindingData where
  "single_binding =
     \<lparr>header = [], xData = [Str ''Jan''],
      yData = Some [\<lparr>validDataCount = 1,
                     data = [\<lparr>originalIndex = 0, formatted = Str ''5'', unformatted = Fin 5\<rparr>]\<rparr>]\<rparr>"

definition single_plotter :: LineChartPlotter where
  "single_plotter =
     \<lparr>bindingData = Some single_binding, lineNumber = 1, columnNumber = 1,
      plotter_max = None, plotter_min = None, isLegendEdited = VNull, clickedPointIdArray = VNull,
      lineOrder = VNull, lineDisplay = VNull, lineTitleArray = VNull\<rparr>"

text \<open>The selection \<^verbatim>\<open>[["Time","A"],["Jan"]]\<close> over the values
  \<^verbatim>\<open>[["Time","A"],["Jan",10]]\<close>, and its conversion.\<close>

definition ragged_raw :: RawData where
  "ragged_raw =
     \<lparr>hasHeader = True,
      raw_formatted = Some [[Str ''Time'', Str ''A''], [Str ''Jan'']],
      raw_unformatted = Some [[Str ''Time'', Str ''A''], [Str ''Jan'', Number (Fin 10)]]\<rparr>"

definition ragged_binding :: BindingData where
  "ragged_binding =
     \<lparr>header = [Str ''A''], xData = [Str ''Jan''],
      yData = Some [\<lparr>validDataCount = 1,
                     data = [\<lparr>originalIndex = 0, formatted = Undefined, unformatted = Fin 10\<rparr>]\<rparr>]\<rparr>"

definition ragged_plotter :: LineChartPlotter where
  "ragged_plotter =
     \<lparr>bindingData = Some ragged_binding, lineNumber = 1, columnNumber = 1,
      plotter_max = None, plotter_min = None, isLegendEdited = VNull, clickedPointIdArray = VNull,
      lineOrder = VNull, lineDisplay = VNull, lineTitleArray = VNull\<rparr>"

text \<open>A chart with one series of two points, one of them formatted as a percentage.\<close>

definition half_percent_line :: LineDataConverted where
  "half_percent_line =
     \<lparr>validDataCount = 2,
      data = [\<lparr>originalIndex = 0, formatted = Str ''50%'', unformatted = Fin 50\<rparr>,
              \<lparr>originalIndex = 1, formatted = Str ''7'', unformatted = Fin 7\<rparr>]\<rparr>"

definition half_percent_plotter :: LineChartPlotter where
  "half_percent_plotter =
     \<lparr>bindingData = Some \<lparr>header = [], xData = [Str ''Jan'', Str ''Feb''], yData = Some [half_percent_line]\<rparr>,
      lineNumber = 1, columnNumber = 2, plotter_max = None, plotter_min = None,
      isLegendEdited = VNull, clickedPointIdArray = VNull,
      lineOrder = VNull, lineDisplay = VNull, lineTitleArray = VNull\<rparr>"

section \<open>Theorems: theme provider\<close>

text \<open>
  C9. For every loaded catalog and every current theme id that is the id of no entry of
  the catalog, \<^verbatim>\<open>getThemeById\<close> returns \<^verbatim>\<open>null\<close>, and the getter \<^verbatim>\<open>CurrentTheme\<close> raises no
  error and resolves to \<^verbatim>\<open>Default\<close>, which is the first entry of the catalog (\<^verbatim>\<open>Themes[0]\<close>,
  which is \<^verbatim>\<open>undefined\<close> for a catalog without entries).
\<close>

theorem CurrentTheme_unknown_id_is_Default:
  assumes "definitions p = Some ts"
      and "\<forall>t \<in> set ts. theme_id t \<noteq> currentThemeId p"
  shows "getThemeById p (currentThemeId p) = Inr None
       \<and> CurrentTheme p = Default p
       \<and> Default p = Inr (case ts of [] \<Rightarrow> None | t # _ \<Rightarrow> Some t)"
proof -
  from assms(2) have f: "filter (\<lambda>v. theme_id v = currentThemeId p) ts = []"
    by (simp add: filter_empty_conv)
  from assms(1) f have g: "getThemeById p (currentThemeId p) = Inr None"
    by (simp add: getThemeById_def Themes_def)
  from assms(1) have d: "Default p = Inr (case ts of [] \<Rightarrow> None | t # _ \<Rightarrow> Some t)"
    by (cases ts) (simp_all add: Default_def Themes_def row_at_def)
  from g d show ?thesis by (simp add: CurrentTheme_def)
qed

theorem CurrentTheme_unknown_id_is_Default_witness:
  "getThemeById \<lparr>definitions = Some [\<lparr>theme_id = ''giant-redwood'', thumbnail = ''a.png'', sku = '''', css = ''a.css''\<rparr>,
                                      \<lparr>theme_id = ''pastel'', thumbnail = ''b.png'', sku = '''', css = ''b.css''\<rparr>],
                  currentThemeId = ''missing''\<rparr> ''missing'' = Inr None
   \<and> CurrentTheme \<lparr>definitions = Some [\<lparr>theme_id = ''giant-redwood'', thumbnail = ''a.png'', sku = '''', css = ''a.css''\<rparr>,
                                      \<lparr>theme_id = ''pastel'', thumbnail = ''b.png'', sku = '''', css = ''b.css''\<rparr>],
                  currentThemeId = ''missing''\<rparr>
   = Inr (Some \<lparr>theme_id = ''giant-redwood'', thumbnail = ''a.png'', sku = '''', css = ''a.css''\<rparr>)"
proof -
  let ?t1 = "\<lparr>theme_id = ''giant-redwood'', thumbnail = ''a.png'', sku = '''', css = ''a.css''\<rparr>"
  let ?t2 = "\<lparr>theme_id = ''pastel'', thumbnail = ''b.png'', sku = '''', css = ''b.css''\<rparr>"
  let ?p = "\<lparr>definitions = Some [?t1, ?t2], currentThemeId = ''missing''\<rparr>"
  have d: "definitions ?p = Some [?t1, ?t2]" by simp
  have n: "\<forall>t \<in> set [?t1, ?t2]. theme_id t \<noteq> currentThemeId ?p" by simp
  from CurrentTheme_unknown_id_is_Default [OF d n] show ?thesis by simp
qed

section \<open>Theorems: header detection\<close>

lemma detectHeader_loop_iff:
  "detectHeader_loop ts isn row0 is h
     = (h \<and> (\<forall>i \<in> set is. \<not> numeric_looking ts isn (cell_at row0 i)))"
  by (induction "is" arbitrary: h) (auto simp: numeric_looking_def Let_def)

text \<open>
  C6. For every non-empty data matrix, \<^verbatim>\<open>detectHeader\<close> returns true exactly when no cell
  of row 0 in the columns \<open>1 .. n\<close> is a non-empty numeric-looking value; so one numeric
  value in a non-first cell of row 0 makes it return false.
\<close>

theorem detectHeader_iff_no_numeric_cell:
  assumes "m \<noteq> []"
  shows "detectHeader toString isNumeric (Some m)
         = Inr (\<not> (\<exists>i. 1 \<le> i \<and> i < length (m ! 0)
                         \<and> numeric_looking toString isNumeric ((m ! 0) ! i)))"
proof -
  from assms have r: "row_at m 0 = Some (m ! 0)" by (simp add: row_at_def)
  have "(\<forall>i \<in> set [1 ..< length (m ! 0)]. \<not> numeric_looking toString isNumeric (cell_at (m ! 0) i))
        = (\<not> (\<exists>i. 1 \<le> i \<and> i < length (m ! 0) \<and> numeric_looking toString isNumeric ((m ! 0) ! i)))"
    by (auto simp: cell_at_def)
  then show ?thesis
    by (simp add: detectHeader_def r detectHeader_loop_iff)
qed

theorem detectHeader_iff_no_numeric_cell_witness:
  "[[Str ''Time'', Str ''A'', Str ''7'']] \<noteq> []
   \<and> detectHeader (\<lambda>c. case c of Str s \<Rightarrow> s | _ \<Rightarrow> '''') (\<lambda>s. s = ''7'')
        (Some [[Str ''Time'', Str ''A'', Str ''7'']]) = Inr False"
proof -
  let ?m = "[[Str ''Time'', Str ''A'', Str ''7'']]"
  let ?ts = "\<lambda>c. case c of Str s \<Rightarrow> s | _ \<Rightarrow> ''''"
  let ?isn = "\<lambda>s. s = ''7''"
  have ne: "?m \<noteq> []" by simp
  have ex: "(\<exists>i. 1 \<le> i \<and> i < length (?m ! 0) \<and> numeric_looking ?ts ?isn ((?m ! 0) ! i)) = True"
    by (rule eqTrueI, rule exI [of _ 2]) (simp add: numeric_looking_def)
  have "detectHeader ?ts ?isn (Some ?m) = Inr False"
    by (subst detectHeader_iff_no_numeric_cell [OF ne], subst ex) simp
  with ne show ?thesis by blast
qed

section \<open>Theorems: data convertor\<close>

lemma convert_lines_eq:
  "convert_lines js ys = ys @ replicate (length js) \<lparr>validDataCount = 0, data = []\<rparr>"
  by (induction js arbitrary: ys) (simp_all add: replicate_app_Cons_same)

lemma line_ok_push:
  assumes "line_ok l" and "\<not> isNaN t" and "\<forall>p \<in> set (data l). originalIndex p < k"
  shows "line_ok \<lparr>validDataCount = validDataCount l + 1,
                  data = data l @ [\<lparr>originalIndex = k, formatted = c, unformatted = t\<rparr>]\<rparr>"
  using assms by (auto simp: line_ok_def sorted_wrt_append)

lemma convert_row_inv:
  assumes "distinct js"
      and "convert_row ps frow u i start js ys = Inr ys'"
      and "row_inv (i - start) (set js) ys"
  shows "length ys' = length ys \<and> row_inv (i - start) {} ys'"
  using assms
proof (induction js arbitrary: ys)
  case Nil
  then show ?case by (simp add: row_inv_def)
next
  case (Cons j js)
  from Cons.prems(2) obtain urow where ur: "row_at u i = Some urow"
    by (auto split: option.splits)
  let ?t = "parseFloat ps (cell_at urow (j + 1))"
  show ?case
  proof (cases "isNaN ?t")
    case True
    with Cons.prems ur have r: "convert_row ps frow u i start js ys = Inr ys'" by simp
    from Cons.prems(3) have "row_inv (i - start) (set js) ys"
      by (auto simp: row_inv_def split: if_splits intro: less_imp_le)
    with Cons.IH [OF _ r] Cons.prems(1) show ?thesis by simp
  next
    case False
    with Cons.prems ur obtain line where l: "row_at ys j = Some line"
      by (auto split: option.splits simp: Let_def)
    let ?ys = "ys[j := \<lparr>validDataCount = validDataCount line + 1,
                 data = data line @ [\<lparr>originalIndex = i - start, formatted = cell_at frow (j + 1), unformatted = ?t\<rparr>]\<rparr>]"
    from False Cons.prems ur l have r: "convert_row ps frow u i start js ?ys = Inr ys'"
      by (simp add: Let_def)
    from l have jl: "j < length ys" and le: "line = ys ! j"
      by (auto simp: row_at_def split: if_splits)
    from Cons.prems(3) jl le have lo: "line_ok line" and lt: "\<forall>p \<in> set (data line). originalIndex p < i - start"
      by (auto simp: row_inv_def)
    have "row_inv (i - start) (set js) ?ys"
      unfolding row_inv_def
    proof (intro allI impI)
      fix n assume n: "n < length ?ys"
      show "line_ok (?ys ! n) \<and> (\<forall>p \<in> set (data (?ys ! n)). if n \<in> set js then originalIndex p < i - start else originalIndex p \<le> i - start)"
      proof (cases "n = j")
        case True
        with Cons.prems(1) have nj: "n \<notin> set js" by simp
        from True jl have e: "?ys ! n = \<lparr>validDataCount = validDataCount line + 1,
                 data = data line @ [\<lparr>originalIndex = i - start, formatted = cell_at frow (j + 1), unformatted = ?t\<rparr>]\<rparr>"
          by simp
        show ?thesis unfolding e using line_ok_push [OF lo False lt] nj lt
          by (auto intro: less_imp_le)
      next
        case False
        with n have e: "?ys ! n = ys ! n" by simp
        from Cons.prems(3) n False show ?thesis unfolding e
          by (auto simp: row_inv_def split: if_splits)
      qed
    qed
    with Cons.IH [OF _ r] Cons.prems(1) show ?thesis by simp
  qed
qed

lemma convert_rows_inv:
  assumes "distinct js"
      and "convert_rows ps f u start js is (xs, ys) = Inr (xs', ys')"
      and "sorted_wrt (<) is" and "\<forall>i \<in> set is. start \<le> i"
      and "\<forall>l \<in> set ys. line_ok l \<and> (\<forall>p \<in> set (data l). \<forall>i \<in> set is. originalIndex p < i - start)"
  shows "length ys' = length ys \<and> (\<forall>l \<in> set ys'. line_ok l)"
  using assms
proof (induction "is" arbitrary: xs ys)
  case Nil
  then show ?case by simp
next
  case (Cons i "is")
  from Cons.prems(2) obtain frow ys1 where
      fr: "row_at f i = Some frow"
      and r1: "convert_row ps frow u i start js ys = Inr ys1"
      and r2: "convert_rows ps f u start js is (array_set xs (i - start) (cell_at frow 0), ys1) = Inr (xs', ys')"
    by (auto split: option.splits sum.splits)
  have "row_inv (i - start) (set js) ys"
    unfolding row_inv_def
  proof (intro allI impI conjI ballI)
    fix n assume n: "n < length ys"
    then have m: "ys ! n \<in> set ys" by simp
    with Cons.prems(5) show "line_ok (ys ! n)" by blast
    fix p assume "p \<in> set (data (ys ! n))"
    with Cons.prems(5) m have "originalIndex p < i - start" by auto
    then show "if n \<in> set js then originalIndex p < i - start else originalIndex p \<le> i - start"
      by simp
  qed
  from convert_row_inv [OF Cons.prems(1) r1 this]
  have len: "length ys1 = length ys" and inv: "row_inv (i - start) {} ys1" by simp_all
  have "\<forall>l \<in> set ys1. line_ok l \<and> (\<forall>p \<in> set (data l). \<forall>i' \<in> set is. originalIndex p < i' - start)"
  proof (intro ballI conjI)
    fix l assume "l \<in> set ys1"
    then obtain n where n: "n < length ys1" "l = ys1 ! n" by (auto simp: in_set_conv_nth)
    with inv show "line_ok l" by (simp add: row_inv_def)
    fix p i' assume p: "p \<in> set (data l)" and i': "i' \<in> set is"
    from inv n p have "originalIndex p \<le> i - start" by (auto simp: row_inv_def)
    moreover from Cons.prems(3,4) i' have "i < i'" "start \<le> i" by auto
    ultimately show "originalIndex p < i' - start" by arith
  qed
  with Cons.IH [OF Cons.prems(1) r2] Cons.prems(3,4) len show ?case by simp
qed

lemma convert_result_lines_ok:
  assumes "convert ps d = Inr b" and "yData b = Some ys"
  shows "\<forall>l \<in> set ys. line_ok l"
proof -
  from assms have v: "isDataValid (raw_formatted d)" "isDataValid (raw_unformatted d)"
    by (auto simp: convert_def Let_def split: if_splits)
  define f where "f = the (raw_formatted d)"
  define u where "u = the (raw_unformatted d)"
  from assms v obtain row0 where r0: "row_at f 0 = Some row0"
    by (auto simp: convert_def Let_def f_def split: option.splits)
  define js where "js = [0 ..< nat (min (int (length row0) - 1) MaxLineNumber)]"
  define st where "st = (if hasHeader d then 1 else 0::nat)"
  from assms v r0 obtain xs where
    r: "convert_rows ps f u st js [st ..< min (length f) MaxColumnNumber] ([], convert_lines js []) = Inr (xs, ys)"
    by (auto simp: convert_def Let_def f_def u_def js_def st_def split: sum.splits)
  have "\<forall>l \<in> set (convert_lines js []). line_ok l \<and> (\<forall>p \<in> set (data l). \<forall>i \<in> set [st ..< min (length f) MaxColumnNumber]. originalIndex p < i - st)"
    by (auto simp: convert_lines_eq line_ok_def)
  from convert_rows_inv [OF _ r _ _ this] show ?thesis by (simp add: js_def)
qed

lemma length_array_set: "length (array_set xs k v) = max (length xs) (Suc k)"
  by (auto simp: array_set_def)

lemma convert_row_length:
  "convert_row ps frow u i start js ys = Inr ys' \<Longrightarrow> length ys' = length ys"
  by (induction js arbitrary: ys) (auto split: option.splits if_splits simp: Let_def)

lemma convert_row_error:
  "convert_row ps frow u i start js ys = Inl e \<Longrightarrow> e = TypeError"
  by (induction js arbitrary: ys) (auto split: option.splits if_splits simp: Let_def)

lemma convert_row_succeeds:
  assumes "js = [] \<or> i < length u" and "\<forall>j \<in> set js. j < length ys"
  shows "\<exists>ys'. convert_row ps frow u i start js ys = Inr ys'"
  using assms
  by (induction js arbitrary: ys) (auto simp: row_at_def Let_def)

lemma convert_row_fails:
  assumes "js \<noteq> []" and "\<not> i < length u"
  shows "convert_row ps frow u i start js ys = Inl TypeError"
  using assms by (cases js) (auto simp: row_at_def)

lemma convert_rows_error:
  "convert_rows ps f u start js is st = Inl e \<Longrightarrow> e = TypeError"
  by (induction ps f u start js "is" st rule: convert_rows.induct)
     (auto split: option.splits sum.splits dest: convert_row_error)

lemma convert_rows_succeeds:
  assumes "\<forall>i \<in> set is. i < length f \<and> (js = [] \<or> i < length u)"
      and "\<forall>j \<in> set js. j < length ys"
  shows "\<exists>r. convert_rows ps f u start js is (xs, ys) = Inr r"
  using assms
proof (induction "is" arbitrary: xs ys)
  case Nil
  then show ?case by simp
next
  case (Cons i "is")
  then have fi: "row_at f i = Some (f ! i)" by (simp add: row_at_def)
  from Cons.prems convert_row_succeeds [of js i u ys ps "f ! i" start]
  obtain ys1 where r1: "convert_row ps (f ! i) u i start js ys = Inr ys1" by auto
  from convert_row_length [OF r1] Cons.prems(2) have "\<forall>j \<in> set js. j < length ys1" by simp
  with Cons.IH [of ys1] Cons.prems(1) fi r1 show ?case by simp
qed

lemma convert_rows_fails:
  assumes "js \<noteq> []" and "\<exists>i \<in> set is. \<not> i < length u"
  shows "convert_rows ps f u start js is (xs, ys) = Inl TypeError"
  using assms
proof (induction "is" arbitrary: xs ys)
  case Nil
  then show ?case by simp
next
  case (Cons i "is")
  show ?case
  proof (cases "row_at f i")
    case None
    then show ?thesis by simp
  next
    case (Some frow)
    show ?thesis
    proof (cases "convert_row ps frow u i start js ys")
      case (Inl e)
      with Some convert_row_error [OF Inl] show ?thesis by simp
    next
      case (Inr ys1)
      with convert_row_fails [OF Cons.prems(1), of i u ps frow start ys]
      have "i < length u" by auto
      with Cons.prems(2) have "\<exists>i \<in> set is. \<not> i < length u" by auto
      from Cons.IH [OF Cons.prems(1) this] Some Inr show ?thesis by simp
    qed
  qed
qed

lemma convert_rows_xData_bound:
  assumes "convert_rows ps f u start js is (xs, ys) = Inr (xs', ys')"
      and "\<forall>i \<in> set is. i - start < N" and "length xs \<le> N"
  shows "length xs' \<le> N"
  using assms
proof (induction "is" arbitrary: xs ys)
  case Nil
  then show ?case by simp
next
  case (Cons i "is")
  from Cons.prems(1) obtain frow ys1 where
      r2: "convert_rows ps f u start js is (array_set xs (i - start) (cell_at frow 0), ys1) = Inr (xs', ys')"
    by (auto split: option.splits sum.splits)
  from Cons.prems(2,3) have "length (array_set xs (i - start) (cell_at frow 0)) \<le> N"
    by (simp add: length_array_set)
  from Cons.IH [OF r2 _ this] Cons.prems(2) show ?case by simp
qed

lemma convert_rows_yData_length:
  "convert_rows ps f u start js is (xs, ys) = Inr (xs', ys') \<Longrightarrow> length ys' = length ys"
proof (induction "is" arbitrary: xs ys)
  case Nil
  then show ?case by simp
next
  case (Cons i "is")
  from Cons.prems obtain frow ys1 where
      r1: "convert_row ps frow u i start js ys = Inr ys1"
      and r2: "convert_rows ps f u start js is (array_set xs (i - start) (cell_at frow 0), ys1) = Inr (xs', ys')"
    by (auto split: option.splits sum.splits)
  from Cons.IH [OF r2] convert_row_length [OF r1] show ?case by simp
qed

lemma convert_missing:
  "\<not> isDataValid (raw_formatted d) \<or> \<not> isDataValid (raw_unformatted d)
   \<Longrightarrow> convert ps d = Inr \<lparr>header = [], xData = [], yData = None\<rparr>"
  by (auto simp: convert_def)

lemma convert_bounds:
  assumes "convert ps d = Inr b"
  shows "length (xData b) \<le> MaxColumnNumber \<and> (\<forall>ys. yData b = Some ys \<longrightarrow> int (length ys) \<le> MaxLineNumber)"
proof (cases "isDataValid (raw_formatted d) \<and> isDataValid (raw_unformatted d)")
  case False
  with assms convert_missing [of d ps] show ?thesis by auto
next
  case True
  define f where "f = the (raw_formatted d)"
  define u where "u = the (raw_unformatted d)"
  from assms True obtain row0 where r0: "row_at f 0 = Some row0"
    by (auto simp: convert_def Let_def f_def split: option.splits)
  define js where "js = [0 ..< nat (min (int (length row0) - 1) MaxLineNumber)]"
  define st where "st = (if hasHeader d then 1 else 0::nat)"
  from assms True r0 obtain xs ys where
    r: "convert_rows ps f u st js [st ..< min (length f) MaxColumnNumber] ([], convert_lines js []) = Inr (xs, ys)"
    and b: "xData b = xs" "yData b = Some ys"
    by (auto simp: convert_def Let_def f_def u_def js_def st_def split: sum.splits)
  have "\<forall>i \<in> set [st ..< min (length f) MaxColumnNumber]. i - st < MaxColumnNumber"
    by auto
  from convert_rows_xData_bound [OF r this] have "length xs \<le> MaxColumnNumber"
    by simp
  moreover from convert_rows_yData_length [OF r] have "int (length ys) \<le> MaxLineNumber"
    by (simp add: convert_lines_eq js_def MaxLineNumber_def)
  ultimately show ?thesis using b by simp
qed

lemma convert_error: "convert ps d = Inl e \<Longrightarrow> e = TypeError"
  by (auto simp: convert_def Let_def split: if_splits option.splits sum.splits dest: convert_rows_error)

lemma convert_throws_iff:
  "(convert ps d = Inl TypeError) = convert_throws d"
proof (cases "isDataValid (raw_formatted d) \<and> isDataValid (raw_unformatted d)")
    case False
    with convert_missing [of d ps] show ?thesis
      by (auto simp: convert_throws_def isDataValid_def split: option.splits)
  next
    case True
    then obtain f u where fu: "raw_formatted d = Some f" "raw_unformatted d = Some u"
      by (auto simp: isDataValid_def)
    show ?thesis
    proof (cases "f = []")
      case True
      with fu show ?thesis by (simp add: convert_def convert_throws_def isDataValid_def row_at_def)
    next
      case False
      define js where "js = [0 ..< nat (min (int (length (f ! 0)) - 1) MaxLineNumber)]"
      define st where "st = (if hasHeader d then 1 else 0::nat)"
      define cn where "cn = min (length f) MaxColumnNumber"
      have c: "(convert ps d = Inl TypeError)
                = (\<exists>e. convert_rows ps f u st js [st ..< cn] ([], convert_lines js []) = Inl e)"
        using fu False unfolding js_def st_def cn_def
        by (auto simp: convert_def isDataValid_def row_at_def Let_def split: sum.splits
                 dest: convert_rows_error)
      have jsne: "(js \<noteq> []) = (1 < length (f ! 0))"
        by (auto simp: js_def MaxLineNumber_def)
      show ?thesis
      proof (cases "js \<noteq> [] \<and> st < cn \<and> length u < cn")
        case True
        then have "\<exists>i \<in> set [st ..< cn]. \<not> i < length u"
          by (intro bexI [of _ "max st (length u)"]) auto
        from convert_rows_fails [OF _ this] True
        have "convert_rows ps f u st js [st ..< cn] ([], convert_lines js []) = Inl TypeError" by simp
        with c True jsne fu False show ?thesis
          by (simp add: convert_throws_def st_def cn_def)
      next
        case F: False
        have "\<forall>i \<in> set [st ..< cn]. i < length f \<and> (js = [] \<or> i < length u)"
          using F by (auto simp: cn_def)
        moreover have "\<forall>j \<in> set js. j < length (convert_lines js [])"
          by (simp add: convert_lines_eq js_def)
        ultimately obtain r where "convert_rows ps f u st js [st ..< cn] ([], convert_lines js []) = Inr r"
          using convert_rows_succeeds by blast
        with c have "convert ps d \<noteq> Inl TypeError" by simp
        with F jsne fu False show ?thesis
          by (auto simp: convert_throws_def st_def cn_def)
      qed
    qed
  qed

lemma convert_example: "convert parse_digits example_raw = Inr example_binding"
  by code_simp

text \<open>
  C10. For every input on which \<^verbatim>\<open>convert\<close> succeeds, every output series has
  \<^verbatim>\<open>validDataCount === data.length\<close>, every stored point has an unformatted value that is
  not \<^verbatim>\<open>NaN\<close>, and the \<^verbatim>\<open>originalIndex\<close> values of a series are strictly increasing.
\<close>

theorem convert_series_invariant:
  assumes "convert parseStr d = Inr b" and "yData b = Some ys" and "l \<in> set ys"
  shows "validDataCount l = length (data l)
       \<and> (\<forall>p \<in> set (data l). \<not> isNaN (unformatted p))
       \<and> sorted_wrt (<) (map originalIndex (data l))"
  using convert_result_lines_ok [OF assms(1,2)] assms(3) by (simp add: line_ok_def)

theorem convert_series_invariant_witness:
  "convert parse_digits example_raw = Inr example_binding
   \<and> validDataCount example_line = length (data example_line)
   \<and> list_all (\<lambda>p. \<not> isNaN (unformatted p)) (data example_line)
   \<and> sorted_wrt (<) (map originalIndex (data example_line))"
proof -
  have y: "yData example_binding = Some (the (yData example_binding))"
    by (simp add: example_binding_def)
  have m: "example_line \<in> set (the (yData example_binding))"
    by (simp add: example_binding_def)
  from convert_series_invariant [OF convert_example y m] convert_example show ?thesis
    unfolding list_all_iff by blast
qed

text \<open>
  C2, as the code has it. When the formatted or the unformatted field is missing,
  \<^verbatim>\<open>convert\<close> returns the empty binding data. It throws exactly on the inputs described by
  \<open>convert_throws\<close>: both fields present and the formatted matrix without a row 0, or at
  least one line to fill and a processed row that the unformatted matrix lacks. On every
  other input it returns a binding data with at most \<^verbatim>\<open>MaxColumnNumber\<close> x-values and at
  most \<^verbatim>\<open>MaxLineNumber\<close> series.
\<close>

theorem convert_total_and_bounded:
  "(\<not> isDataValid (raw_formatted d) \<or> \<not> isDataValid (raw_unformatted d)
      \<longrightarrow> convert parseStr d = Inr \<lparr>header = [], xData = [], yData = None\<rparr>)
   \<and> (convert_throws d \<longrightarrow> convert parseStr d = Inl TypeError)
   \<and> (\<not> convert_throws d \<longrightarrow>
        (\<exists>b. convert parseStr d = Inr b
            \<and> length (xData b) \<le> MaxColumnNumber
            \<and> (\<forall>ys. yData b = Some ys \<longrightarrow> int (length ys) \<le> MaxLineNumber)))"
proof (intro conjI impI)
  assume "\<not> isDataValid (raw_formatted d) \<or> \<not> isDataValid (raw_unformatted d)"
  then show "convert parseStr d = Inr \<lparr>header = [], xData = [], yData = None\<rparr>"
    by (rule convert_missing)
next
  assume "convert_throws d"
  then show "convert parseStr d = Inl TypeError" by (simp add: convert_throws_iff)
next
  assume n: "\<not> convert_throws d"
  show "\<exists>b. convert parseStr d = Inr b \<and> length (xData b) \<le> MaxColumnNumber
            \<and> (\<forall>ys. yData b = Some ys \<longrightarrow> int (length ys) \<le> MaxLineNumber)"
  proof (cases "convert parseStr d")
    case (Inl e)
    with convert_error [OF Inl] n show ?thesis by (simp add: convert_throws_iff)
  next
    case (Inr b)
    with convert_bounds [OF Inr] show ?thesis by simp
  qed
qed

theorem convert_total_and_bounded_witness:
  "\<not> convert_throws example_raw
   \<and> convert parse_digits example_raw = Inr example_binding
   \<and> length (xData example_binding) \<le> MaxColumnNumber
   \<and> convert_throws empty_raw
   \<and> convert parse_digits empty_raw = Inl TypeError
   \<and> \<not> isDataValid (raw_formatted (empty_raw\<lparr>raw_formatted := None\<rparr>))
   \<and> convert parse_digits (empty_raw\<lparr>raw_formatted := None\<rparr>) = Inr \<lparr>header = [], xData = [], yData = None\<rparr>"
proof -
  have a: "\<not> convert_throws example_raw"
    by (simp add: convert_throws_def example_raw_def MaxColumnNumber_def)
  have b: "convert_throws empty_raw"
    by (simp add: convert_throws_def empty_raw_def)
  have c: "\<not> isDataValid (raw_formatted (empty_raw\<lparr>raw_formatted := None\<rparr>))"
    by (simp add: isDataValid_def)
  from convert_total_and_bounded [of example_raw parse_digits] a convert_example
  have 1: "length (xData example_binding) \<le> MaxColumnNumber" by auto
  from convert_total_and_bounded [of empty_raw parse_digits] b
  have 2: "convert parse_digits empty_raw = Inl TypeError" by blast
  from convert_total_and_bounded [of "empty_raw\<lparr>raw_formatted := None\<rparr>" parse_digits] c
  have 3: "convert parse_digits (empty_raw\<lparr>raw_formatted := None\<rparr>) = Inr \<lparr>header = [], xData = [], yData = None\<rparr>"
    by blast
  from a b c 1 2 3 convert_example show ?thesis by blast
qed

text \<open>
  C2 as stated fails: on a selection whose formatted and unformatted matrices are present
  but empty, \<^verbatim>\<open>data.formatted[0].length\<close> throws.
\<close>

theorem convert_throws_on_empty_matrix:
  "convert parse_digits empty_raw = Inl TypeError"
  by (simp add: convert_def empty_raw_def isDataValid_def row_at_def)

section \<open>Theorems: line chart plotter\<close>

lemma map_nth_upt_take: "n \<le> length xs \<Longrightarrow> map ((!) xs) [0 ..< n] = take n xs"
  by (simp add: list_eq_iff_nth_eq)

lemma lines_at_upt: "lines_at ys [0 ..< n] = take n ys"
proof (induction n)
  case 0
  then show ?case by (simp add: lines_at_def)
next
  case (Suc n)
  then show ?case
    by (cases "n < length ys") (simp_all add: lines_at_def row_at_def take_Suc_conv_app_nth)
qed

lemma lines_at_Cons:
  "lines_at ys (i # is) = (case row_at ys i of None \<Rightarrow> [] | Some l \<Rightarrow> [l]) @ lines_at ys is"
  by (simp add: lines_at_def)

lemma plotted_lines_eq:
  "bindingData p = Some bd \<Longrightarrow> yData bd = Some ys \<Longrightarrow> plotted_lines p = lines_at ys [0 ..< lineNumber p]"
  by (simp add: plotted_lines_def lines_at_upt)

lemma yData_at_eq:
  "bindingData p = Some bd \<Longrightarrow> yData bd = Some ys \<Longrightarrow> yData_at p i = Inr (row_at ys i)"
  by (simp add: yData_at_def)

lemma isPercentageFormat_line_eq:
  assumes "\<forall>j \<in> set js. j < length (data l) \<and> is_Str (formatted (data l ! j))"
  shows "isPercentageFormat_line l js c
         = Inr (c + length (filter (\<lambda>p. has_percent (formatted p) = Inr True) (map ((!) (data l)) js)))"
  using assms
proof (induction js arbitrary: c)
  case Nil
  then show ?case by simp
next
  case (Cons j js)
  then obtain s where s: "formatted (data l ! j) = Str s"
    by (cases "formatted (data l ! j)") auto
  with Cons show ?case by (simp add: row_at_def has_percent_def)
qed

lemma isPercentageFormat_line_count:
  assumes "formatted_readable l"
  shows "isPercentageFormat_line l [0 ..< validDataCount l] 0 = Inr (percent_count l)"
proof -
  from assms have le: "validDataCount l \<le> length (data l)"
    by (simp add: formatted_readable_def)
  from assms have "\<forall>j \<in> set [0 ..< validDataCount l]. j < length (data l) \<and> is_Str (formatted (data l ! j))"
    by (auto simp: formatted_readable_def counted_points_def list_all_length)
  from isPercentageFormat_line_eq [OF this, of 0] le show ?thesis
    by (simp add: percent_count_def counted_points_def map_nth_upt_take)
qed

lemma isPercentageFormat_line_stops:
  assumes "j \<in> set js" and "\<not> (j < length (data l) \<and> is_Str (formatted (data l ! j)))"
  shows "isPercentageFormat_line l js c = Inl TypeError"
  using assms(1)
proof (induction js arbitrary: c)
  case Nil
  then show ?case by simp
next
  case (Cons i js)
  show ?case
  proof (cases "i < length (data l) \<and> is_Str (formatted (data l ! i))")
    case True
    then obtain s where s: "formatted (data l ! i) = Str s"
      by (cases "formatted (data l ! i)") auto
    from True assms(2) have "i \<noteq> j" by auto
    with Cons.prems have "j \<in> set js" by simp
    from Cons.IH [OF this] True s show ?thesis
      by (simp add: row_at_def has_percent_def)
  next
    case False
    show ?thesis
    proof (cases "i < length (data l)")
      case True
      with False have "\<not> is_Str (formatted (data l ! i))" by simp
      then have "has_percent (formatted (data l ! i)) = Inl TypeError"
        by (cases "formatted (data l ! i)") (simp_all add: has_percent_def)
      with True show ?thesis by (simp add: row_at_def)
    next
      case False
      then show ?thesis by (simp add: row_at_def)
    qed
  qed
qed

lemma isPercentageFormat_line_throws:
  assumes "\<not> formatted_readable l"
  shows "isPercentageFormat_line l [0 ..< validDataCount l] 0 = Inl TypeError"
proof (cases "validDataCount l \<le> length (data l)")
  case False
  then have "length (data l) \<in> set [0 ..< validDataCount l]" by simp
  from isPercentageFormat_line_stops [OF this] show ?thesis by simp
next
  case True
  with assms have "\<not> list_all (\<lambda>pt. is_Str (formatted pt)) (take (validDataCount l) (data l))"
    by (simp add: formatted_readable_def counted_points_def)
  with True obtain j where j: "j < validDataCount l" "\<not> is_Str (formatted (data l ! j))"
    by (auto simp: list_all_length)
  then have "j \<in> set [0 ..< validDataCount l]" by simp
  from isPercentageFormat_line_stops [OF this] j show ?thesis by simp
qed

lemma isPercentageFormat_lines_eq:
  assumes "bindingData p = Some bd" and "yData bd = Some ys"
  shows "isPercentageFormat_lines p is
         = (case dropWhile (\<lambda>l. formatted_readable l \<and> enough_percent l) (lines_at ys is) of
              [] \<Rightarrow> Inr True
            | l # _ \<Rightarrow> if formatted_readable l then Inr False else Inl TypeError)"
proof (induction "is")
  case Nil
  then show ?case by (simp add: lines_at_def)
next
  case (Cons i "is")
  show ?case
  proof (cases "row_at ys i")
    case None
    with Cons show ?thesis by (simp add: lines_at_Cons yData_at_eq [OF assms])
  next
    case (Some l)
    show ?thesis
    proof (cases "formatted_readable l")
      case True
      from Cons Some True show ?thesis
        by (simp add: lines_at_Cons yData_at_eq [OF assms] isPercentageFormat_line_count [OF True]
              enough_percent_def not_less)
    next
      case False
      from Some False show ?thesis
        by (simp add: lines_at_Cons yData_at_eq [OF assms] isPercentageFormat_line_throws [OF False])
    qed
  qed
qed

lemma isPercentageFormat_eq:
  "isPercentageFormat p =
     (if lineNumber p \<noteq> 0 \<and> \<not> has_yData p then Inl TypeError
      else case dropWhile (\<lambda>l. formatted_readable l \<and> enough_percent l) (plotted_lines p) of
             [] \<Rightarrow> Inr True
           | l # _ \<Rightarrow> if formatted_readable l then Inr False else Inl TypeError)"
proof (cases "has_yData p")
  case True
  then obtain bd ys where b: "bindingData p = Some bd" "yData bd = Some ys"
    by (auto simp: has_yData_def split: option.splits)
  from isPercentageFormat_lines_eq [OF b, of "[0 ..< lineNumber p]"] True show ?thesis
    by (simp add: plotted_lines_eq [OF b] isPercentageFormat_def)
next
  case False
  then have y: "yData_at p i = Inl TypeError" for i
    by (auto simp: has_yData_def yData_at_def split: option.splits)
  from False have e: "plotted_lines p = []"
    by (auto simp: has_yData_def plotted_lines_def split: option.splits)
  show ?thesis
  proof (cases "lineNumber p = 0")
    case True
    with e show ?thesis by (simp add: isPercentageFormat_def)
  next
    case n: False
    then have "[0 ..< lineNumber p] = 0 # [1 ..< lineNumber p]" by (simp add: upt_rec)
    with False n y show ?thesis by (simp add: isPercentageFormat_def)
  qed
qed

lemma max_min_over_append: "max_min_over (xs @ ys) st = max_min_over ys (max_min_over xs st)"
  by (induction xs st rule: max_min_over.induct) simp_all

lemma setMaxAndMin_line_eq:
  assumes "\<forall>j \<in> set js. j < length (data l)"
  shows "setMaxAndMin_line l js st = Inr (max_min_over (map (unformatted \<circ> (!) (data l)) js) st)"
  using assms
proof (induction js arbitrary: st)
  case Nil
  then show ?case by simp
next
  case (Cons j js)
  then show ?case by (cases st) (simp add: row_at_def Let_def)
qed

lemma setMaxAndMin_line_counted:
  assumes "validDataCount l \<le> length (data l)"
  shows "setMaxAndMin_line l [0 ..< validDataCount l] st
         = Inr (max_min_over (map unformatted (counted_points l)) st)"
proof -
  from assms have "\<forall>j \<in> set [0 ..< validDataCount l]. j < length (data l)" by auto
  from setMaxAndMin_line_eq [OF this, of st] assms show ?thesis
    by (simp add: counted_points_def map_nth_upt_take [symmetric])
qed

lemma setMaxAndMin_lines_eq:
  assumes "bindingData p = Some bd" and "yData bd = Some ys"
      and "list_all (\<lambda>l. validDataCount l \<le> length (data l)) (lines_at ys is)"
  shows "setMaxAndMin_lines p is st
         = Inr (max_min_over (concat (map (\<lambda>l. map unformatted (counted_points l)) (lines_at ys is))) st)"
  using assms(3)
proof (induction "is" arbitrary: st)
  case Nil
  then show ?case by (simp add: lines_at_def)
next
  case (Cons i "is")
  show ?case
  proof (cases "row_at ys i")
    case None
    with Cons show ?thesis by (simp add: lines_at_Cons yData_at_eq [OF assms(1,2)])
  next
    case (Some l)
    with Cons.prems have w: "validDataCount l \<le> length (data l)"
      by (simp_all add: lines_at_Cons)
    from Cons Some show ?thesis
      by (simp add: lines_at_Cons yData_at_eq [OF assms(1,2)] setMaxAndMin_line_counted [OF w]
            max_min_over_append)
  qed
qed

lemma setMaxAndMin_loops:
  assumes "numbers_ready p"
  shows "setMaxAndMin_lines p [0 ..< lineNumber p] st = Inr (max_min_over (plotted_values p) st)"
proof -
  from assms obtain bd ys where b: "bindingData p = Some bd" "yData bd = Some ys"
    by (auto simp: numbers_ready_def has_yData_def split: option.splits)
  from assms have "list_all (\<lambda>l. validDataCount l \<le> length (data l)) (lines_at ys [0 ..< lineNumber p])"
    by (simp add: numbers_ready_def plotted_lines_eq [OF b] list_all_iff)
  from setMaxAndMin_lines_eq [OF b this] show ?thesis
    by (simp add: plotted_values_def plotted_lines_eq [OF b])
qed

lemma js_lt_total: "\<not> isNaN a \<Longrightarrow> \<not> isNaN b \<Longrightarrow> a \<noteq> b \<Longrightarrow> js_lt a b \<or> js_lt b a"
  by (cases a; cases b) auto

lemma js_lt_irrefl: "\<not> js_lt a a"
  by (cases a) auto

lemma js_lt_asym: "js_lt a b \<Longrightarrow> \<not> js_lt b a"
  by (cases a; cases b) auto

lemma js_lt_trans: "js_lt a b \<Longrightarrow> js_lt b c \<Longrightarrow> js_lt a c"
  by (cases a; cases b; cases c) auto

lemma js_lt_notNaN: "js_lt a b \<Longrightarrow> \<not> isNaN a \<and> \<not> isNaN b"
  by (cases a; cases b) auto

lemma max_min_step:
  assumes "\<not> isNaN hi" "\<not> isNaN lo" "\<not> isNaN t" "\<not> js_lt hi lo"
  shows "\<not> isNaN (Math_max hi t) \<and> \<not> isNaN (Math_min lo t)
       \<and> Math_max hi t \<in> {hi, t} \<and> Math_min lo t \<in> {lo, t}
       \<and> \<not> js_lt (Math_max hi t) (Math_min lo t)"
  using assms
  by (cases hi; cases lo; cases t) (auto simp: Math_max_def Math_min_def)

lemma max_min_over_inv:
  assumes "range_inv S st" and "set ts \<subseteq> S" and "\<forall>t \<in> set ts. \<not> isNaN t"
  shows "range_inv S (max_min_over ts st)"
  using assms
proof (induction ts arbitrary: st)
  case Nil
  then show ?case by simp
next
  case (Cons t ts)
  obtain first mx mn where st: "st = (first, mx, mn)" by (cases st)
  with Cons.prems(1) obtain hi lo where h: "\<not> first" "mx = Some hi" "mn = Some lo" "hi \<in> S" "lo \<in> S"
      "\<not> isNaN hi" "\<not> isNaN lo" "\<not> js_lt hi lo"
    by (auto simp: range_inv_def)
  from Cons.prems have t: "\<not> isNaN t" "t \<in> S" by auto
  from max_min_step [OF h(6,7) t(1) h(8)] h t
  have "range_inv S (False, Some (Math_max hi t), Some (Math_min lo t))"
    by (auto simp: range_inv_def)
  from Cons.IH [OF this] Cons.prems st h show ?case by (simp add: to_number_def)
qed

lemma max_min_over_first:
  assumes "ts \<noteq> []" and "\<forall>t \<in> set ts. \<not> isNaN t"
  shows "range_inv (set ts) (max_min_over ts (True, a, b))"
proof -
  from assms obtain t ts' where ts: "ts = t # ts'" by (cases ts) auto
  with assms have t: "\<not> isNaN t" by simp
  then have m: "Math_max t t = t" "Math_min t t = t"
    by (simp_all add: Math_max_def Math_min_def js_lt_irrefl)
  have "range_inv (set ts) (False, Some t, Some t)"
    using t ts by (simp add: range_inv_def js_lt_irrefl)
  from max_min_over_inv [OF this, of ts'] assms ts m show ?thesis
    by (auto simp: to_number_def)
qed

lemma js_zero_cases: "\<not> isNaN v \<Longrightarrow> \<not> js_lt (Fin 0) v \<Longrightarrow> \<not> js_lt v (Fin 0) \<Longrightarrow> v = Fin 0"
  by (cases v) auto

lemma setMaxAndMin_no_values:
  assumes "numbers_ready p" and "plotted_values p = []"
  shows "setMaxAndMin p = Inr (p\<lparr>plotter_max := Some (Fin 1), plotter_min := Some (Fin 0)\<rparr>)"
  using assms by (simp add: setMaxAndMin_def setMaxAndMin_loops)

lemma numbers_ready_values: "numbers_ready p \<Longrightarrow> \<forall>t \<in> set (plotted_values p). \<not> isNaN t"
  by (auto simp: numbers_ready_def plotted_values_def list_all_iff)

lemma setMaxAndMin_some_values:
  assumes "numbers_ready p" and "plotted_values p \<noteq> []"
  obtains hi lo where "hi \<in> set (plotted_values p)" "lo \<in> set (plotted_values p)"
     "\<not> isNaN hi" "\<not> isNaN lo" "\<not> js_lt hi lo"
     "setMaxAndMin p =
        (if js_seq lo hi
         then (if js_gt lo (Fin 0)
               then Inr (p\<lparr>plotter_max := Some hi, plotter_min := Some (Fin 0)\<rparr>)
               else if js_lt lo (Fin 0)
               then Inr (p\<lparr>plotter_max := Some (Fin 0), plotter_min := Some lo\<rparr>)
               else Inr (p\<lparr>plotter_max := Some hi, plotter_min := Some (Fin (- 1))\<rparr>))
         else Inr (p\<lparr>plotter_max := Some hi, plotter_min := Some lo\<rparr>))"
proof -
  from max_min_over_first [OF assms(2) numbers_ready_values [OF assms(1)], of "plotter_max p" "plotter_min p"]
  obtain hi lo where st: "max_min_over (plotted_values p) (True, plotter_max p, plotter_min p) = (False, Some hi, Some lo)"
     and h: "hi \<in> set (plotted_values p)" "lo \<in> set (plotted_values p)"
     "\<not> isNaN hi" "\<not> isNaN lo" "\<not> js_lt hi lo"
    by (auto simp: range_inv_def)
  show thesis
    by (rule that [OF h]) (simp add: setMaxAndMin_def setMaxAndMin_loops [OF assms(1)] st)
qed


lemma domain_single:
  assumes "lo \<in> S" and "mn = Some a" and "mx = Some b" and "js_lt a b"
      and "js_gt lo (Fin 0) \<Longrightarrow> a = Fin 0 \<and> b = lo"
      and "js_lt lo (Fin 0) \<Longrightarrow> a = lo \<and> b = Fin 0"
      and "lo = Fin 0 \<Longrightarrow> a = Fin (- 1) \<and> b = Fin 0"
  shows "(\<forall>v. S = {v} \<longrightarrow>
            (js_gt v (Fin 0) \<longrightarrow> mn = Some (Fin 0) \<and> mx = Some v)
          \<and> (js_lt v (Fin 0) \<longrightarrow> mn = Some v \<and> mx = Some (Fin 0))
          \<and> (v = Fin 0 \<longrightarrow> mn = Some (Fin (- 1)) \<and> mx = Some (Fin 0)))
     \<and> js_lt (to_number mn) (to_number mx)"
proof (intro conjI allI impI)
  show "js_lt (to_number mn) (to_number mx)" using assms(2,3,4) by (simp add: to_number_def)
next
  fix v assume "S = {v}"
  with assms(1) have v: "v = lo" by simp
  { assume "js_gt v (Fin 0)"
    with v assms(5) have "a = Fin 0 \<and> b = lo" by simp
    with v assms(2,3) show "mn = Some (Fin 0)" "mx = Some v" by simp_all }
  { assume "js_lt v (Fin 0)"
    with v assms(6) have "a = lo \<and> b = Fin 0" by simp
    with v assms(2,3) show "mn = Some v" "mx = Some (Fin 0)" by simp_all }
  { assume "v = Fin 0"
    with v assms(7) have "a = Fin (- 1) \<and> b = Fin 0" by simp
    with assms(2,3) show "mn = Some (Fin (- 1))" "mx = Some (Fin 0)" by simp_all }
qed

text \<open>
  C7. On a binding data whose counted points exist and are numbers (none is \<^verbatim>\<open>NaN\<close>),
  \<^verbatim>\<open>setMaxAndMin\<close> returns, and: without any point the domain is exactly \<open>[0, 1]\<close>; when all
  points share one value \<open>v\<close> the domain is \<open>[0, v]\<close> for \<open>v > 0\<close>, \<open>[v, 0]\<close> for \<open>v < 0\<close> and
  \<open>[-1, 0]\<close> for \<open>v = 0\<close>; in every case the minimum is strictly below the maximum, so the
  domain is neither degenerate nor \<^verbatim>\<open>NaN\<close>.
\<close>

theorem setMaxAndMin_domain:
  assumes "numbers_ready p"
  shows "\<exists>p'. setMaxAndMin p = Inr p'
     \<and> (plotted_values p = [] \<longrightarrow> plotter_min p' = Some (Fin 0) \<and> plotter_max p' = Some (Fin 1))
     \<and> (\<forall>v. set (plotted_values p) = {v} \<longrightarrow>
            (js_gt v (Fin 0) \<longrightarrow> plotter_min p' = Some (Fin 0) \<and> plotter_max p' = Some v)
          \<and> (js_lt v (Fin 0) \<longrightarrow> plotter_min p' = Some v \<and> plotter_max p' = Some (Fin 0))
          \<and> (v = Fin 0 \<longrightarrow> plotter_min p' = Some (Fin (- 1)) \<and> plotter_max p' = Some (Fin 0)))
     \<and> js_lt (to_number (plotter_min p')) (to_number (plotter_max p'))"
proof (cases "plotted_values p = []")
  case True
  have "setMaxAndMin p = Inr (p\<lparr>plotter_max := Some (Fin 1), plotter_min := Some (Fin 0)\<rparr>)"
    by (rule setMaxAndMin_no_values [OF assms True])
  moreover have "js_lt (to_number (Some (Fin 0))) (to_number (Some (Fin 1)))"
    by (simp add: to_number_def)
  ultimately show ?thesis using True by simp
next
  case False
  from setMaxAndMin_some_values [OF assms False]
  obtain hi lo where h: "hi \<in> set (plotted_values p)" "lo \<in> set (plotted_values p)"
     "\<not> isNaN hi" "\<not> isNaN lo" "\<not> js_lt hi lo"
     and r: "setMaxAndMin p =
        (if js_seq lo hi
         then (if js_gt lo (Fin 0)
               then Inr (p\<lparr>plotter_max := Some hi, plotter_min := Some (Fin 0)\<rparr>)
               else if js_lt lo (Fin 0)
               then Inr (p\<lparr>plotter_max := Some (Fin 0), plotter_min := Some lo\<rparr>)
               else Inr (p\<lparr>plotter_max := Some hi, plotter_min := Some (Fin (- 1))\<rparr>))
         else Inr (p\<lparr>plotter_max := Some hi, plotter_min := Some lo\<rparr>))"
    by blast
  have "\<exists>a b. setMaxAndMin p = Inr (p\<lparr>plotter_max := Some b, plotter_min := Some a\<rparr>)
      \<and> js_lt a b
      \<and> ((\<exists>v. set (plotted_values p) = {v}) \<longrightarrow>
            (js_gt lo (Fin 0) \<longrightarrow> a = Fin 0 \<and> b = lo)
          \<and> (js_lt lo (Fin 0) \<longrightarrow> a = lo \<and> b = Fin 0)
          \<and> (lo = Fin 0 \<longrightarrow> a = Fin (- 1) \<and> b = Fin 0))"
  proof (cases "js_seq lo hi")
    case seq: True
    then have e: "hi = lo" by (simp add: js_seq_def)
    consider (pos) "js_lt (Fin 0) lo" | (neg) "\<not> js_lt (Fin 0) lo" "js_lt lo (Fin 0)" | (zero) "lo = Fin 0"
      using js_zero_cases [OF h(4)] by blast
    then show ?thesis
    proof cases
      case pos
      from r seq e pos have "setMaxAndMin p = Inr (p\<lparr>plotter_max := Some lo, plotter_min := Some (Fin 0)\<rparr>)"
        by (simp add: js_gt_def)
      moreover from pos have "\<not> js_lt lo (Fin 0)" "lo \<noteq> Fin 0"
        using js_lt_asym js_lt_irrefl by blast+
      ultimately show ?thesis using pos by (intro exI [of _ "Fin 0"] exI [of _ lo]) simp
    next
      case neg
      from r seq e neg have "setMaxAndMin p = Inr (p\<lparr>plotter_max := Some (Fin 0), plotter_min := Some lo\<rparr>)"
        by (simp add: js_gt_def)
      moreover from neg have "lo \<noteq> Fin 0"
        using js_lt_irrefl by blast
      ultimately show ?thesis using neg
        by (intro exI [of _ lo] exI [of _ "Fin 0"]) (simp add: js_gt_def)
    next
      case zero
      from r seq e zero have "setMaxAndMin p = Inr (p\<lparr>plotter_max := Some (Fin 0), plotter_min := Some (Fin (- 1))\<rparr>)"
        by (simp add: js_gt_def)
      then show ?thesis using zero
        by (intro exI [of _ "Fin (- 1)"] exI [of _ "Fin 0"]) (simp add: js_gt_def)
    qed
  next
    case nseq: False
    with h have ne: "lo \<noteq> hi" by (simp add: js_seq_def)
    with js_lt_total [OF h(4,3)] h(5) have lt: "js_lt lo hi" by blast
    from ne h(1,2) have "\<not> (\<exists>v. set (plotted_values p) = {v})" by auto
    moreover from r nseq have "setMaxAndMin p = Inr (p\<lparr>plotter_max := Some hi, plotter_min := Some lo\<rparr>)"
      by simp
    ultimately show ?thesis using lt
      by (intro exI [of _ lo] exI [of _ hi]) simp
  qed
  then obtain a b where s: "setMaxAndMin p = Inr (p\<lparr>plotter_max := Some b, plotter_min := Some a\<rparr>)"
      and ab: "js_lt a b"
      and c: "(\<exists>v. set (plotted_values p) = {v}) \<Longrightarrow>
            (js_gt lo (Fin 0) \<longrightarrow> a = Fin 0 \<and> b = lo)
          \<and> (js_lt lo (Fin 0) \<longrightarrow> a = lo \<and> b = Fin 0)
          \<and> (lo = Fin 0 \<longrightarrow> a = Fin (- 1) \<and> b = Fin 0)"
    by blast
  let ?p' = "p\<lparr>plotter_max := Some b, plotter_min := Some a\<rparr>"
  have "(\<forall>v. set (plotted_values p) = {v} \<longrightarrow>
            (js_gt v (Fin 0) \<longrightarrow> plotter_min ?p' = Some (Fin 0) \<and> plotter_max ?p' = Some v)
          \<and> (js_lt v (Fin 0) \<longrightarrow> plotter_min ?p' = Some v \<and> plotter_max ?p' = Some (Fin 0))
          \<and> (v = Fin 0 \<longrightarrow> plotter_min ?p' = Some (Fin (- 1)) \<and> plotter_max ?p' = Some (Fin 0)))
     \<and> js_lt (to_number (plotter_min ?p')) (to_number (plotter_max ?p'))"
  proof (cases "\<exists>v. set (plotted_values p) = {v}")
    case True
    show ?thesis
      by (rule domain_single [OF h(2), of _ a _ b]) (use c [OF True] ab in simp_all)
  next
    case F: False
    with ab show ?thesis by (simp add: to_number_def)
  qed
  with s False show ?thesis by blast
qed

theorem setMaxAndMin_domain_witness:
  "numbers_ready single_plotter
   \<and> (\<exists>p'. setMaxAndMin single_plotter = Inr p'
           \<and> plotter_min p' = Some (Fin 0) \<and> plotter_max p' = Some (Fin 5))"
proof -
  have nr: "numbers_ready single_plotter"
    by (simp add: numbers_ready_def single_plotter_def single_binding_def has_yData_def plotted_lines_def
          counted_points_def)
  have s: "set (plotted_values single_plotter) = {Fin 5}"
    by (simp add: plotted_values_def single_plotter_def single_binding_def plotted_lines_def counted_points_def)
  have g: "js_gt (Fin 5) (Fin 0)" by (simp add: js_gt_def)
  from setMaxAndMin_domain [OF nr] s g nr show ?thesis by blast
qed

text \<open>
  C4, as the code has it. \<^verbatim>\<open>isPercentageFormat\<close> returns true exactly when every plotted
  series (each of the first \<^verbatim>\<open>lineNumber\<close> series of the binding data) has all its counted
  points, with string formatted values, at least half of which contain a percent sign, and
  at least one; without any series to visit it returns true. Otherwise the first plotted
  series that is not so decides: the function returns false when all counted points of
  that series exist and have string formatted values, and throws a \<^verbatim>\<open>TypeError\<close> when one
  of them is missing or has a formatted value that is not a string; it also throws when
  there is a series to visit and the binding data or its \<^verbatim>\<open>yData\<close> is missing.
\<close>

theorem isPercentageFormat_iff_half:
  "(isPercentageFormat p = Inr True)
     = ((lineNumber p = 0 \<or> has_yData p)
        \<and> list_all (\<lambda>l. formatted_readable l \<and> enough_percent l) (plotted_lines p))
   \<and> isPercentageFormat p =
       (if lineNumber p \<noteq> 0 \<and> \<not> has_yData p then Inl TypeError
        else case dropWhile (\<lambda>l. formatted_readable l \<and> enough_percent l) (plotted_lines p) of
               [] \<Rightarrow> Inr True
             | l # _ \<Rightarrow> if formatted_readable l then Inr False else Inl TypeError)"
proof (rule conjI)
  let ?P = "\<lambda>l. formatted_readable l \<and> enough_percent l"
  have d: "(dropWhile ?P (plotted_lines p) = []) = list_all ?P (plotted_lines p)"
    by (simp add: dropWhile_eq_Nil_conv list_all_iff)
  show "(isPercentageFormat p = Inr True)
     = ((lineNumber p = 0 \<or> has_yData p) \<and> list_all ?P (plotted_lines p))"
  proof (cases "dropWhile ?P (plotted_lines p)")
    case Nil
    have "isPercentageFormat p
          = (if lineNumber p \<noteq> 0 \<and> \<not> has_yData p then Inl TypeError else Inr True)"
      by (subst isPercentageFormat_eq) (simp only: Nil list.case)
    moreover from Nil d have "list_all ?P (plotted_lines p)" by simp
    ultimately show ?thesis by auto
  next
    case (Cons l ls)
    have "isPercentageFormat p
          = (if lineNumber p \<noteq> 0 \<and> \<not> has_yData p then Inl TypeError
             else if formatted_readable l then Inr False else Inl TypeError)"
      by (subst isPercentageFormat_eq) (simp only: Cons list.case)
    moreover from Cons d have "\<not> list_all ?P (plotted_lines p)" by simp
    ultimately show ?thesis by auto
  qed
next
  show "isPercentageFormat p =
       (if lineNumber p \<noteq> 0 \<and> \<not> has_yData p then Inl TypeError
        else case dropWhile (\<lambda>l. formatted_readable l \<and> enough_percent l) (plotted_lines p) of
               [] \<Rightarrow> Inr True
             | l # _ \<Rightarrow> if formatted_readable l then Inr False else Inl TypeError)"
    by (rule isPercentageFormat_eq)
qed

text \<open>
  The selection of \<open>ragged_raw\<close> has a formatted row shorter than its unformatted row:
  \<^verbatim>\<open>convert\<close> stores a point whose formatted value is \<^verbatim>\<open>undefined\<close>, and
  \<^verbatim>\<open>isPercentageFormat\<close> throws on the result.
\<close>

theorem isPercentageFormat_iff_half_witness:
  "convert parse_digits ragged_raw = Inr ragged_binding
   \<and> isPercentageFormat ragged_plotter = Inl TypeError
   \<and> isPercentageFormat example_plotter = Inr False"
proof -
  have c: "convert parse_digits ragged_raw = Inr ragged_binding"
    by (simp add: convert_def ragged_raw_def ragged_binding_def isDataValid_def row_at_def
          MaxLineNumber_def MaxColumnNumber_def Let_def upt_rec array_set_def cell_at_def
          parseFloat_def)
  have r: "isPercentageFormat ragged_plotter = Inl TypeError"
    by (subst conjunct2 [OF isPercentageFormat_iff_half])
       (simp add: ragged_plotter_def ragged_binding_def has_yData_def plotted_lines_def
          formatted_readable_def counted_points_def)
  have e: "isPercentageFormat example_plotter = Inr False"
    by (subst conjunct2 [OF isPercentageFormat_iff_half])
       (simp add: example_plotter_def example_binding_def example_line_def has_yData_def
          plotted_lines_def formatted_readable_def enough_percent_def percent_count_def
          counted_points_def has_percent_def)
  from c r e show ?thesis by simp
qed

text \<open>
  C4 as stated fails: with exactly half of the values of the only series formatted as a
  percentage, which is not strictly more than half, \<^verbatim>\<open>isPercentageFormat\<close> returns true.
\<close>

theorem isPercentageFormat_true_at_exactly_half:
  "isPercentageFormat half_percent_plotter = Inr True
   \<and> plotted_lines half_percent_plotter = [half_percent_line]
   \<and> validDataCount half_percent_line = 2
   \<and> percent_count half_percent_line = 1"
  by (simp add: isPercentageFormat_def half_percent_plotter_def half_percent_line_def
        yData_at_def row_at_def has_percent_def upt_rec plotted_lines_def percent_count_def
        counted_points_def)

section \<open>Theorems: configuration store\<close>

lemma onConfigurationChanged_frame:
  "keys (onConfigurationChanged l k v w) = keys w"
  "settings (onConfigurationChanged l k v w) = settings w"
  "changeListeners (onConfigurationChanged l k v w) = changeListeners w"
  "delaySetTimeOutIDs (onConfigurationChanged l k v w) = delaySetTimeOutIDs w"
  "reentryFlag (onConfigurationChanged l k v w) = reentryFlag w"
  "writes (onConfigurationChanged l k v w) = writes w"
  "timers (onConfigurationChanged l k v w) = timers w"
  "last_timer_id (onConfigurationChanged l k v w) = last_timer_id w"
  "clock (onConfigurationChanged l k v w) = clock w"
  "uncaught (onConfigurationChanged l k v w) = uncaught w"
  by (cases l; simp add: save_def split: option.splits)+

lemma notify_listeners_frame:
  "keys (notify_listeners ls k v w) = keys w"
  "settings (notify_listeners ls k v w) = settings w"
  "changeListeners (notify_listeners ls k v w) = changeListeners w"
  "delaySetTimeOutIDs (notify_listeners ls k v w) = delaySetTimeOutIDs w"
  "reentryFlag (notify_listeners ls k v w) = reentryFlag w"
  "writes (notify_listeners ls k v w) = writes w"
  "timers (notify_listeners ls k v w) = timers w"
  "last_timer_id (notify_listeners ls k v w) = last_timer_id w"
  "clock (notify_listeners ls k v w) = clock w"
  "uncaught (notify_listeners ls k v w) = uncaught w"
  by (induction ls arbitrary: w; simp add: onConfigurationChanged_frame)+

lemma notify_listeners_notified:
  "notified (notify_listeners ls k v w) = notified w @ notifications ls (k, v)"
proof (induction ls arbitrary: w)
  case Nil
  show ?case by (simp add: notifications_def)
next
  case (Cons l ls)
  show ?case
    by (cases l) (simp_all add: Cons notifications_def save_def split: option.splits)
qed

lemma notify_listeners_reentry:
  assumes "reentryFlag w"
  shows "document_settings (notify_listeners ls k v w) = document_settings w
       \<and> host_writes (notify_listeners ls k v w) = host_writes w"
  using assms
proof (induction ls arbitrary: w)
  case Nil
  show ?case by simp
next
  case (Cons l ls)
  have "reentryFlag (onConfigurationChanged l k v w)"
    using Cons.prems by (simp add: onConfigurationChanged_frame)
  from Cons.IH [OF this] Cons.prems show ?case
    by (cases l) simp_all
qed

lemma loadAll_keys_effect:
  assumes "reentryFlag w" and "document_settings w = Some h"
  shows "\<exists>w'. loadAll_keys ks w = Inr w'
     \<and> document_settings w' = Some h \<and> host_writes w' = host_writes w
     \<and> reentryFlag w' \<and> changeListeners w' = changeListeners w
     \<and> notified w' = notified w @ concat (map (notifications (changeListeners w)) (loaded_values ks h))
     \<and> writes w' = writes w @ loaded_values ks h"
  using assms
proof (induction ks arbitrary: w)
  case Nil
  then show ?case by simp
next
  case (Cons key ks)
  show ?case
  proof (cases "h key = None \<or> h key = Some VNull")
    case True
    with Cons.IH [OF Cons.prems] Cons.prems show ?thesis by auto
  next
    case False
    then obtain val where v: "h key = Some val" "val \<noteq> VNull" by auto
    define w1 where "w1 = w\<lparr>settings := (settings w)(key \<mapsto> val), writes := writes w @ [(key, val)]\<rparr>"
    define w2 where "w2 = notify_listeners (changeListeners w1) key val w1"
    have s: "Configuration_set key val True w = Inr w2"
      using v by (simp add: Configuration_set_def w1_def w2_def Let_def)
    have r1: "reentryFlag w1" "document_settings w1 = Some h" using Cons.prems by (simp_all add: w1_def)
    have r: "reentryFlag w2" "document_settings w2 = Some h"
      using notify_listeners_reentry [OF r1(1), of "changeListeners w1" key val] r1
      by (simp_all add: w2_def notify_listeners_frame)
    have f: "host_writes w2 = host_writes w" "changeListeners w2 = changeListeners w"
        "notified w2 = notified w @ notifications (changeListeners w) (key, val)"
        "writes w2 = writes w @ [(key, val)]"
      using notify_listeners_reentry [OF r1(1), of "changeListeners w1" key val]
      by (simp_all add: w2_def notify_listeners_frame notify_listeners_notified w1_def)
    from Cons.IH [OF r] obtain w' where w': "loadAll_keys ks w2 = Inr w'"
       "document_settings w' = Some h" "host_writes w' = host_writes w2"
       "reentryFlag w'" "changeListeners w' = changeListeners w2"
       "notified w' = notified w2 @ concat (map (notifications (changeListeners w2)) (loaded_values ks h))"
       "writes w' = writes w2 @ loaded_values ks h"
      by blast
    have "loadAll_keys (key # ks) w = Inr w'"
      using Cons.prems(2) v s w'(1) by simp
    with w' f v show ?thesis by simp
  qed
qed


text \<open>
  C3, as the code has it. Without host settings \<^verbatim>\<open>loadAll\<close> does nothing. With host
  settings \<open>h\<close> it returns, and the loop calls \<^verbatim>\<open>set\<close> with notification for every key that
  has a value in \<open>h\<close>: each of the other listeners is called once for each loaded pair, in
  the order of the keys and of the registrations. Only the configurator is silenced by its
  flag: the host settings are as before and nothing is saved. The flag is reset at the
  end.
\<close>

theorem loadAll_notifies_without_persisting:
  "(document_settings w = None \<longrightarrow> loadAll w = Inr w)
   \<and> (\<forall>h. document_settings w = Some h \<longrightarrow>
         (\<exists>w'. loadAll w = Inr w'
            \<and> document_settings w' = Some h \<and> host_writes w' = host_writes w
            \<and> reentryFlag w' = False
            \<and> notified w' = notified w @ concat (map (notifications (changeListeners w)) (loaded_values (keys w) h))
            \<and> writes w' = writes w @ loaded_values (keys w) h))"
proof (intro conjI allI impI)
  assume "document_settings w = None"
  then show "loadAll w = Inr w" by (simp add: loadAll_def)
next
  fix h assume h: "document_settings w = Some h"
  let ?w0 = "(clear w)\<lparr>reentryFlag := True\<rparr>"
  have "reentryFlag ?w0" "document_settings ?w0 = Some h"
    using h by (simp_all add: clear_def)
  from loadAll_keys_effect [OF this, of "keys w"] obtain w' where w': "loadAll_keys (keys w) ?w0 = Inr w'"
       "document_settings w' = Some h" "host_writes w' = host_writes ?w0"
       "changeListeners w' = changeListeners ?w0"
       "notified w' = notified ?w0 @ concat (map (notifications (changeListeners ?w0)) (loaded_values (keys w) h))"
       "writes w' = writes ?w0 @ loaded_values (keys w) h"
    by blast
  have "loadAll w = Inr (w'\<lparr>reentryFlag := False\<rparr>)"
    using h w'(1) by (simp add: loadAll_def)
  with w' show "\<exists>w'. loadAll w = Inr w'
            \<and> document_settings w' = Some h \<and> host_writes w' = host_writes w
            \<and> reentryFlag w' = False
            \<and> notified w' = notified w @ concat (map (notifications (changeListeners w)) (loaded_values (keys w) h))
            \<and> writes w' = writes w @ loaded_values (keys w) h"
    by (simp add: clear_def)
qed


theorem loadAll_notifies_without_persisting_witness:
  "\<exists>w'. loadAll example_state = Inr w'
        \<and> notified w' = [(1, ''theme'', VStr ''pastel'')]
        \<and> writes w' = [(''theme'', VStr ''pastel'')]
        \<and> host_writes w' = []"
proof -
  have d: "document_settings example_state = Some [''theme'' \<mapsto> VStr ''pastel'']"
    by (simp add: example_state_def)
  have l: "loaded_values (keys example_state) [''theme'' \<mapsto> VStr ''pastel''] = [(''theme'', VStr ''pastel'')]"
    by (simp add: example_state_def key_lineOrder_def key_lineDisplay_def key_lineTitleArray_def)
  from loadAll_notifies_without_persisting [of example_state] d
  obtain w' where "loadAll example_state = Inr w'" "host_writes w' = host_writes example_state"
     "notified w' = notified example_state @ concat (map (notifications (changeListeners example_state))
          (loaded_values (keys example_state) [''theme'' \<mapsto> VStr ''pastel'']))"
     "writes w' = writes example_state @ loaded_values (keys example_state) [''theme'' \<mapsto> VStr ''pastel'']"
    by blast
  then show ?thesis
    by (simp add: l) (simp add: example_state_def notifications_def)
qed

text \<open>
  C3 as stated fails: a listener registered beside the configurator is invoked for the
  value written during the bulk load.
\<close>

theorem loadAll_invokes_listener:
  "\<exists>w'. loadAll example_state = Inr w' \<and> notified w' = [(1, ''theme'', VStr ''pastel'')]"
  by (simp add: loadAll_def example_state_def clear_def Configuration_set_def Let_def
        key_lineOrder_def key_lineDisplay_def key_lineTitleArray_def)

section \<open>Theorems: per-line chart state\<close>

lemma notify_listeners_arrays: "arrays (notify_listeners ls k v w) = arrays w"
proof (induction ls arbitrary: w)
  case Nil
  show ?case by simp
next
  case (Cons l ls)
  have "arrays (onConfigurationChanged l k v w) = arrays w"
    by (cases l) (simp_all add: save_def split: option.splits)
  with Cons show ?case by simp
qed

lemma notify_listeners_next_array: "next_array (notify_listeners ls k v w) = next_array w"
proof (induction ls arbitrary: w)
  case Nil
  show ?case by simp
next
  case (Cons l ls)
  have "next_array (onConfigurationChanged l k v w) = next_array w"
    by (cases l) (simp_all add: save_def split: option.splits)
  with Cons show ?case by simp
qed

lemmas notify_listeners_store = notify_listeners_arrays notify_listeners_next_array

lemma Configuration_set_eq:
  "v \<noteq> VNull \<Longrightarrow>
   Configuration_set k v True w
     = Inr (notify_listeners (changeListeners w) k v
              (w\<lparr>settings := (settings w)(k \<mapsto> v), writes := writes w @ [(k, v)]\<rparr>))"
  by (simp add: Configuration_set_def Let_def)

lemma Configuration_set_store:
  assumes "v \<noteq> VNull"
  shows "\<exists>w'. Configuration_set k v True w = Inr w' \<and> settings w' = (settings w)(k \<mapsto> v)
            \<and> arrays w' = arrays w \<and> next_array w' = next_array w"
  using assms by (simp add: Configuration_set_eq notify_listeners_frame notify_listeners_store)

lemma set_new_array_effect:
  "\<exists>w'. (case new_array xs w of (a, w1) \<Rightarrow> Configuration_set key (VArray a) True w1) = Inr w'
        \<and> settings w' = (settings w)(key \<mapsto> VArray (next_array w))
        \<and> arrays w' = (arrays w)(next_array w \<mapsto> xs)
        \<and> next_array w' = Suc (next_array w)"
  by (simp add: new_array_def Configuration_set_eq notify_listeners_frame notify_listeners_store)

lemma and_then_Inr: "and_then (Inr x) f = f x"
  by (simp add: and_then_def)

lemma five: "[0 ..< nat MaxLineNumber] = [0, 1, 2, 3, 4]"
  by (simp add: MaxLineNumber_def upt_rec)

lemma resetLineOrder_value:
  "resetLineOrder_loop [0 ..< nat MaxLineNumber] []
   = [VNum (Fin 0), VNum (Fin 1), VNum (Fin 2), VNum (Fin 3), VNum (Fin 4)]"
  by (simp add: five value_array_set_def)

lemma resetLineDisplay_value:
  "resetLineDisplay_loop [0 ..< nat MaxLineNumber] [] = replicate 5 (VBool True)"
  by (simp add: five value_array_set_def numeral_eq_Suc)

lemma resetLineTitleArray_value:
  "resetLineTitleArray_loop n [0 ..< nat MaxLineNumber] []
   = map (\<lambda>i. VStr (stringFormat n [Some (number_toString (i + 1))])) [0, 1, 2, 3, 4]"
  by (simp add: five value_array_set_def)

lemma keys_distinct:
  "key_lineOrder \<noteq> key_lineDisplay" "key_lineOrder \<noteq> key_lineTitleArray" "key_lineOrder \<noteq> key_isLegendEdited"
  "key_lineDisplay \<noteq> key_lineTitleArray" "key_lineDisplay \<noteq> key_isLegendEdited"
  "key_lineTitleArray \<noteq> key_isLegendEdited"
  "key_clickedPointIdArray \<noteq> key_lineOrder" "key_clickedPointIdArray \<noteq> key_lineDisplay"
  "key_clickedPointIdArray \<noteq> key_lineTitleArray" "key_clickedPointIdArray \<noteq> key_isLegendEdited"
  by (simp_all add: key_lineOrder_def key_lineDisplay_def key_lineTitleArray_def key_isLegendEdited_def
        key_clickedPointIdArray_def)

text \<open>The four resets in a row: four new arrays at consecutive addresses.\<close>

lemma reset_all_effect:
  "\<exists>w'. and_then (resetClickedPointIdArrays w)
           (\<lambda>w2. and_then (resetLineOrder w2)
             (\<lambda>w3. and_then (resetLineDisplay w3) (resetLineTitleArray n))) = Inr w'
      \<and> settings w' = (settings w)
           (key_clickedPointIdArray \<mapsto> VArray (next_array w),
            key_lineOrder \<mapsto> VArray (Suc (next_array w)),
            key_lineDisplay \<mapsto> VArray (Suc (Suc (next_array w))),
            key_lineTitleArray \<mapsto> VArray (Suc (Suc (Suc (next_array w)))),
            key_isLegendEdited \<mapsto> VBool False)
      \<and> arrays w' = (arrays w)
           (next_array w \<mapsto> [],
            Suc (next_array w) \<mapsto> resetLineOrder_loop [0 ..< nat MaxLineNumber] [],
            Suc (Suc (next_array w)) \<mapsto> resetLineDisplay_loop [0 ..< nat MaxLineNumber] [],
            Suc (Suc (Suc (next_array w))) \<mapsto> resetLineTitleArray_loop n [0 ..< nat MaxLineNumber] [])
      \<and> next_array w' = Suc (Suc (Suc (Suc (next_array w))))"
proof -
  obtain w1 where 1: "resetClickedPointIdArrays w = Inr w1"
      "settings w1 = (settings w)(key_clickedPointIdArray \<mapsto> VArray (next_array w))"
      "arrays w1 = (arrays w)(next_array w \<mapsto> [])" "next_array w1 = Suc (next_array w)"
    unfolding resetClickedPointIdArrays_def using set_new_array_effect by blast
  obtain w2 where 2: "resetLineOrder w1 = Inr w2"
      "settings w2 = (settings w1)(key_lineOrder \<mapsto> VArray (next_array w1))"
      "arrays w2 = (arrays w1)(next_array w1 \<mapsto> resetLineOrder_loop [0 ..< nat MaxLineNumber] [])"
      "next_array w2 = Suc (next_array w1)"
    unfolding resetLineOrder_def using set_new_array_effect by blast
  obtain w3 where 3: "resetLineDisplay w2 = Inr w3"
      "settings w3 = (settings w2)(key_lineDisplay \<mapsto> VArray (next_array w2))"
      "arrays w3 = (arrays w2)(next_array w2 \<mapsto> resetLineDisplay_loop [0 ..< nat MaxLineNumber] [])"
      "next_array w3 = Suc (next_array w2)"
    unfolding resetLineDisplay_def using set_new_array_effect by blast
  obtain w4 where 4:
      "(case new_array (resetLineTitleArray_loop n [0 ..< nat MaxLineNumber] []) w3 of
          (a, w') \<Rightarrow> Configuration_set key_lineTitleArray (VArray a) True w') = Inr w4"
      "settings w4 = (settings w3)(key_lineTitleArray \<mapsto> VArray (next_array w3))"
      "arrays w4 = (arrays w3)(next_array w3 \<mapsto> resetLineTitleArray_loop n [0 ..< nat MaxLineNumber] [])"
      "next_array w4 = Suc (next_array w3)"
    using set_new_array_effect by blast
  obtain w5 where 5: "Configuration_set key_isLegendEdited (VBool False) True w4 = Inr w5"
      "settings w5 = (settings w4)(key_isLegendEdited \<mapsto> VBool False)"
      "arrays w5 = arrays w4" "next_array w5 = next_array w4"
    using Configuration_set_store [of "VBool False"] by blast
  from 4(1) have t: "resetLineTitleArray n w3 = Inr w5"
    by (simp add: resetLineTitleArray_def new_array_def and_then_Inr 5(1))
  have "and_then (resetClickedPointIdArrays w)
           (\<lambda>w2. and_then (resetLineOrder w2)
             (\<lambda>w3. and_then (resetLineDisplay w3) (resetLineTitleArray n))) = Inr w5"
    by (simp add: and_then_Inr 1 2 3 t)
  with 1 2 3 4 5 show ?thesis by simp
qed

lemma onDataChanged_reset:
  assumes "bindingData p = Some old" and "yData old = Some ys_old"
      and "yData new = Some ys_new" and "length ys_new \<noteq> length ys_old"
  shows "\<exists>w' a. onDataChanged n p (Some new) w = Inr w'
     \<and> settings w' key_clickedPointIdArray = Some (VArray a)
     \<and> settings w' key_lineOrder = Some (VArray (Suc a))
     \<and> settings w' key_lineDisplay = Some (VArray (Suc (Suc a)))
     \<and> settings w' key_lineTitleArray = Some (VArray (Suc (Suc (Suc a))))
     \<and> settings w' key_isLegendEdited = Some (VBool False)
     \<and> arrays w' (Suc a) = Some (resetLineOrder_loop [0 ..< nat MaxLineNumber] [])
     \<and> arrays w' (Suc (Suc a)) = Some (resetLineDisplay_loop [0 ..< nat MaxLineNumber] [])
     \<and> arrays w' (Suc (Suc (Suc a))) = Some (resetLineTitleArray_loop n [0 ..< nat MaxLineNumber] [])
     \<and> next_array w' = Suc (Suc (Suc (Suc a)))"
proof -
  obtain w1 where 1: "(if length (xData new) \<noteq> length (xData old) then resetClickedPointIdArrays w else Inr w) = Inr w1"
    by (cases "length (xData new) \<noteq> length (xData old)")
       (simp_all add: resetClickedPointIdArrays_def new_array_def Configuration_set_eq)
  from reset_all_effect [of w1 n] obtain w' where
    r: "and_then (resetClickedPointIdArrays w1)
           (\<lambda>w2. and_then (resetLineOrder w2)
             (\<lambda>w3. and_then (resetLineDisplay w3) (resetLineTitleArray n))) = Inr w'"
    and s: "settings w' = (settings w1)
           (key_clickedPointIdArray \<mapsto> VArray (next_array w1),
            key_lineOrder \<mapsto> VArray (Suc (next_array w1)),
            key_lineDisplay \<mapsto> VArray (Suc (Suc (next_array w1))),
            key_lineTitleArray \<mapsto> VArray (Suc (Suc (Suc (next_array w1)))),
            key_isLegendEdited \<mapsto> VBool False)"
    and h: "arrays w' = (arrays w1)
           (next_array w1 \<mapsto> [],
            Suc (next_array w1) \<mapsto> resetLineOrder_loop [0 ..< nat MaxLineNumber] [],
            Suc (Suc (next_array w1)) \<mapsto> resetLineDisplay_loop [0 ..< nat MaxLineNumber] [],
            Suc (Suc (Suc (next_array w1))) \<mapsto> resetLineTitleArray_loop n [0 ..< nat MaxLineNumber] [])"
    and x: "next_array w' = Suc (Suc (Suc (Suc (next_array w1))))"
    by blast
  have o: "onDataChanged n p (Some new) w = Inr w'"
    unfolding onDataChanged_def using assms by (simp add: 1 r and_then_Inr)
  show ?thesis
    by (rule exI [of _ w'], rule exI [of _ "next_array w1"]) (simp add: o s h x keys_distinct)
qed

lemma array_set_length_length: "length (array_set_length xs n) = n"
  by (simp add: array_set_length_def)

text \<open>\<^verbatim>\<open>setMaxAndMin\<close> returns on series that have their counted points, and changes the two
  bounds only.\<close>

lemma setMaxAndMin_returns:
  assumes "bindingData p = Some bd" and "yData bd = Some ys"
      and "list_all (\<lambda>l. validDataCount l \<le> length (data l)) ys"
  shows "\<exists>mx mn. setMaxAndMin p = Inr (p\<lparr>plotter_max := mx, plotter_min := mn\<rparr>)"
proof -
  from assms(3) have "list_all (\<lambda>l. validDataCount l \<le> length (data l)) (lines_at ys [0 ..< lineNumber p])"
    unfolding lines_at_upt list_all_iff using set_take_subset [of "lineNumber p" ys] by blast
  from setMaxAndMin_lines_eq [OF assms(1,2) this, of "(True, plotter_max p, plotter_min p)"]
  obtain r where r: "setMaxAndMin_lines p [0 ..< lineNumber p] (True, plotter_max p, plotter_min p) = Inr r"
    by blast
  obtain f mx mn where t: "r = (f, mx, mn)" by (cases r) auto
  show ?thesis
    unfolding setMaxAndMin_def r t by (simp, blast)
qed

text \<open>
  \<^verbatim>\<open>initData\<close> in a configuration that holds the arrays of a reset: the header, if there
  is one, replaces the titles, and the lengths of the order and of the display arrays
  become the line count.
\<close>

lemma initData_after_reset:
  fixes a :: nat
  assumes s: "settings w1 key_clickedPointIdArray = Some (VArray a)"
             "settings w1 key_lineOrder = Some (VArray (Suc a))"
             "settings w1 key_lineDisplay = Some (VArray (Suc (Suc a)))"
             "settings w1 key_lineTitleArray = Some (VArray (Suc (Suc (Suc a))))"
             "settings w1 key_isLegendEdited = Some (VBool False)"
      and h: "arrays w1 (Suc a) = Some xo" "arrays w1 (Suc (Suc a)) = Some xd"
             "arrays w1 (Suc (Suc (Suc a))) = Some xt"
      and n: "next_array w1 = Suc (Suc (Suc (Suc a)))"
      and y: "yData new = Some ys"
      and wf: "list_all (\<lambda>l. validDataCount l \<le> length (data l)) ys"
  shows "\<exists>p' w'. initData dln new (p, w1) = Inr (p', w')
     \<and> lineNumber p' = length ys
     \<and> settings w' key_lineOrder = Some (lineOrder p')
     \<and> settings w' key_lineDisplay = Some (lineDisplay p')
     \<and> setting_length w' key_lineOrder = Some (length ys)
     \<and> setting_length w' key_lineDisplay = Some (length ys)
     \<and> setting_length w' key_lineTitleArray
         = Some (if header new = [] then length xt else length (header new))"
proof -
  define t where "t = (if header new = [] then Suc (Suc (Suc a)) else Suc (Suc (Suc (Suc a))))"
  define w2 where "w2 =
     (if header new = [] then w1
      else notify_listeners (changeListeners w1) key_lineTitleArray (VArray (Suc (Suc (Suc (Suc a)))))
             (w1\<lparr>arrays := (arrays w1)(Suc (Suc (Suc (Suc a))) \<mapsto> map cell_value (header new)),
                 next_array := Suc (Suc (Suc (Suc (Suc a)))),
                 settings := (settings w1)(key_lineTitleArray \<mapsto> VArray (Suc (Suc (Suc (Suc a))))),
                 writes := writes w1 @ [(key_lineTitleArray, VArray (Suc (Suc (Suc (Suc a)))))]\<rparr>))"
  define w8 where "w8 = w2\<lparr>arrays := (arrays w2)(Suc a \<mapsto> array_set_length xo (length ys),
                                                  Suc (Suc a) \<mapsto> array_set_length xd (length ys))\<rparr>"
  define p1 where "p1 = p\<lparr>bindingData := Some new,
                          isLegendEdited := VBool False,
                          clickedPointIdArray := VArray a,
                          lineOrder := VArray (Suc a),
                          lineDisplay := VArray (Suc (Suc a)),
                          lineTitleArray := VArray t,
                          lineNumber := length ys,
                          columnNumber := length (xData new)\<rparr>"
  have s2: "settings w2 key_clickedPointIdArray = Some (VArray a)"
       "settings w2 key_lineOrder = Some (VArray (Suc a))"
       "settings w2 key_lineDisplay = Some (VArray (Suc (Suc a)))"
       "settings w2 key_lineTitleArray = Some (VArray t)"
    using s by (simp_all add: w2_def t_def notify_listeners_frame keys_distinct)
  have h2: "arrays w2 (Suc a) = Some xo" "arrays w2 (Suc (Suc a)) = Some xd"
       "arrays w2 t = Some (if header new = [] then xt else map cell_value (header new))"
    using h by (simp_all add: w2_def t_def notify_listeners_store)
  have g: "Configuration_get key_isLegendEdited w1 = VBool False"
    using s by (simp add: Configuration_get_def)
  have g2: "Configuration_get key_clickedPointIdArray w2 = VArray a"
      "Configuration_get key_lineOrder w2 = VArray (Suc a)"
      "Configuration_get key_lineDisplay w2 = VArray (Suc (Suc a))"
      "Configuration_get key_lineTitleArray w2 = VArray t"
    using s2 by (simp_all add: Configuration_get_def)
  have l: "assign_length (VArray (Suc a)) (length ys) w2
           = Inr (w2\<lparr>arrays := (arrays w2)(Suc a \<mapsto> array_set_length xo (length ys))\<rparr>)"
    using h2 by (simp add: assign_length_def)
  have l2: "assign_length (VArray (Suc (Suc a))) (length ys)
              (w2\<lparr>arrays := (arrays w2)(Suc a \<mapsto> array_set_length xo (length ys))\<rparr>) = Inr w8"
    using h2 by (simp add: assign_length_def w8_def)
  have c: "(if header new = [] then Inr w1
            else (case new_array (map cell_value (header new)) w1 of
                    (a, w1') \<Rightarrow> Configuration_set key_lineTitleArray (VArray a) True w1')) = Inr w2"
    by (simp add: new_array_def Configuration_set_eq n w2_def)
  have i: "initData dln new (p, w1) = and_then (setMaxAndMin p1) (\<lambda>p2. Inr (p2, w8))"
  proof (cases "header new = []")
    case True
    with c have e: "w2 = w1" by simp
    from True show ?thesis
      unfolding initData_def
      by (simp add: y Let_def g and_then_Inr truthy_def g2 [unfolded e] l [unfolded e]
            l2 [unfolded e] p1_def)
  next
    case False
    with c have c': "(case new_array (map cell_value (header new)) w1 of
                    (a, w1') \<Rightarrow> Configuration_set key_lineTitleArray (VArray a) True w1') = Inr w2"
      by simp
    from False show ?thesis
      unfolding initData_def
      by (simp add: y Let_def g c' and_then_Inr truthy_def g2 l l2 p1_def)
  qed
  from setMaxAndMin_returns [of p1 new ys] y wf obtain mx mn where
    m: "setMaxAndMin p1 = Inr (p1\<lparr>plotter_max := mx, plotter_min := mn\<rparr>)"
    by (auto simp: p1_def)
  have r: "initData dln new (p, w1) = Inr (p1\<lparr>plotter_max := mx, plotter_min := mn\<rparr>, w8)"
    by (simp add: i m and_then_Inr)
  have s8: "settings w8 = settings w2" by (simp add: w8_def)
  have h8: "arrays w8 (Suc a) = Some (array_set_length xo (length ys))"
       "arrays w8 (Suc (Suc a)) = Some (array_set_length xd (length ys))"
       "arrays w8 t = Some (if header new = [] then xt else map cell_value (header new))"
    using h2 by (simp_all add: w8_def t_def)
  have "lineNumber (p1\<lparr>plotter_max := mx, plotter_min := mn\<rparr>) = length ys
     \<and> settings w8 key_lineOrder = Some (lineOrder (p1\<lparr>plotter_max := mx, plotter_min := mn\<rparr>))
     \<and> settings w8 key_lineDisplay = Some (lineDisplay (p1\<lparr>plotter_max := mx, plotter_min := mn\<rparr>))
     \<and> setting_length w8 key_lineOrder = Some (length ys)
     \<and> setting_length w8 key_lineDisplay = Some (length ys)
     \<and> setting_length w8 key_lineTitleArray
         = Some (if header new = [] then length xt else length (header new))"
    using h8 by (simp add: setting_length_def s8 s2 array_set_length_length p1_def)
  with r show ?thesis by blast
qed

text \<open>\<^verbatim>\<open>plot\<close> on data whose line count differs from the one of the bound data.\<close>

lemma plot_reset:
  assumes "bindingData p = Some old" and "yData old = Some ys_old"
      and "yData new = Some ys_new" and "length ys_new \<noteq> length ys_old"
      and "xData new \<noteq> []" and "ys_new \<noteq> []"
      and "list_all (\<lambda>l. validDataCount l \<le> length (data l)) ys_new"
  shows "(\<exists>w1. onDataChanged dln p (Some new) w = Inr w1
            \<and> setting_length w1 key_lineOrder = Some (nat MaxLineNumber)
            \<and> setting_length w1 key_lineDisplay = Some (nat MaxLineNumber)
            \<and> setting_length w1 key_lineTitleArray = Some (nat MaxLineNumber))
       \<and> (\<exists>p' w'. plot dln (Some new) (p, w) = Inr (p', w')
            \<and> lineNumber p' = length ys_new
            \<and> settings w' key_lineOrder = Some (lineOrder p')
            \<and> settings w' key_lineDisplay = Some (lineDisplay p')
            \<and> setting_length w' key_lineOrder = Some (length ys_new)
            \<and> setting_length w' key_lineDisplay = Some (length ys_new)
            \<and> setting_length w' key_lineTitleArray
                = Some (if header new = [] then nat MaxLineNumber else length (header new)))"
proof -
  from onDataChanged_reset [OF assms(1-4), of dln w] obtain w1 a where
    o: "onDataChanged dln p (Some new) w = Inr w1"
    and s: "settings w1 key_clickedPointIdArray = Some (VArray a)"
           "settings w1 key_lineOrder = Some (VArray (Suc a))"
           "settings w1 key_lineDisplay = Some (VArray (Suc (Suc a)))"
           "settings w1 key_lineTitleArray = Some (VArray (Suc (Suc (Suc a))))"
           "settings w1 key_isLegendEdited = Some (VBool False)"
    and h: "arrays w1 (Suc a) = Some (resetLineOrder_loop [0 ..< nat MaxLineNumber] [])"
           "arrays w1 (Suc (Suc a)) = Some (resetLineDisplay_loop [0 ..< nat MaxLineNumber] [])"
           "arrays w1 (Suc (Suc (Suc a))) = Some (resetLineTitleArray_loop dln [0 ..< nat MaxLineNumber] [])"
    and n: "next_array w1 = Suc (Suc (Suc (Suc a)))"
    by blast
  have first: "setting_length w1 key_lineOrder = Some (nat MaxLineNumber)"
      "setting_length w1 key_lineDisplay = Some (nat MaxLineNumber)"
      "setting_length w1 key_lineTitleArray = Some (nat MaxLineNumber)"
    by (simp_all add: setting_length_def s h resetLineOrder_value resetLineDisplay_value
          resetLineTitleArray_value)
       (simp_all add: MaxLineNumber_def)
  have lt: "length (resetLineTitleArray_loop dln [0 ..< nat MaxLineNumber] []) = nat MaxLineNumber"
    by (simp add: resetLineTitleArray_value) (simp add: MaxLineNumber_def)
  from initData_after_reset [OF s h n assms(3,7), of dln p] obtain p' w' where
    i: "initData dln new (p, w1) = Inr (p', w')"
    and r: "lineNumber p' = length ys_new"
       "settings w' key_lineOrder = Some (lineOrder p')"
       "settings w' key_lineDisplay = Some (lineDisplay p')"
       "setting_length w' key_lineOrder = Some (length ys_new)"
       "setting_length w' key_lineDisplay = Some (length ys_new)"
       "setting_length w' key_lineTitleArray
         = Some (if header new = [] then length (resetLineTitleArray_loop dln [0 ..< nat MaxLineNumber] [])
                 else length (header new))"
    by blast
  have "plot dln (Some new) (p, w) = Inr (p', w')"
    using assms(3,5,6) by (simp add: plot_def o and_then_Inr i)
  with o first r lt show ?thesis by auto
qed

text \<open>The header of a conversion result has one cell for each series, or none.\<close>

lemma convert_header_length:
  "length h = a \<Longrightarrow> length (convert_header row0 [a ..< b] h) = max a b"
proof (induction "b - a" arbitrary: a h)
  case 0
  then show ?case by simp
next
  case (Suc m)
  then have lt: "a < b" by simp
  then have u: "[a ..< b] = a # [Suc a ..< b]" by (simp add: upt_rec)
  have l: "length (array_set h a (cell_at row0 (a + 1))) = Suc a"
    using Suc.prems by (simp add: length_array_set)
  from Suc.hyps(2) have "m = b - Suc a" by simp
  from Suc.hyps(1) [OF this l] lt show ?case by (simp add: u)
qed

lemma convert_header_lines:
  assumes "convert ps d = Inr b" and "yData b = Some ys"
  shows "length (header b) = (if hasHeader d then length ys else 0)"
proof -
  from assms have v: "isDataValid (raw_formatted d)" "isDataValid (raw_unformatted d)"
    by (auto simp: convert_def Let_def split: if_splits)
  define f where "f = the (raw_formatted d)"
  define u where "u = the (raw_unformatted d)"
  from assms v obtain row0 where r0: "row_at f 0 = Some row0"
    by (auto simp: convert_def Let_def f_def split: option.splits)
  define js where "js = [0 ..< nat (min (int (length row0) - 1) MaxLineNumber)]"
  define st where "st = (if hasHeader d then 1 else 0::nat)"
  from assms v r0 obtain xs where
    r: "convert_rows ps f u st js [st ..< min (length f) MaxColumnNumber] ([], convert_lines js []) = Inr (xs, ys)"
    and hd: "header b = (if hasHeader d then convert_header row0 js [] else [])"
    by (auto simp: convert_def Let_def f_def u_def js_def st_def split: sum.splits)
  from convert_rows_yData_length [OF r] have "length ys = length js"
    by (simp add: convert_lines_eq)
  moreover have "length (convert_header row0 js []) = length js"
    unfolding js_def using convert_header_length [of "[]" 0 row0] by simp
  ultimately show ?thesis using hd by simp
qed

lemma stringFormat_example:
  "stringFormat ''Series {0} of {1}{x}'' [Some (number_toString 12)] = ''Series 12 of {1}{x}''"
  by code_simp

text \<open>
  C1, as the code has it. Let \<^verbatim>\<open>plot\<close> be called with the conversion of a selection, with
  at least one row and one series, whose line count differs from the one of the bound
  data. \<^verbatim>\<open>onDataChanged\<close> resets the per-line state: the arrays then stored under
  \<^verbatim>\<open>lineOrder\<close>, \<^verbatim>\<open>lineDisplay\<close> and \<^verbatim>\<open>lineTitleArray\<close> all have length \<^verbatim>\<open>MaxLineNumber\<close>.
  \<^verbatim>\<open>initData\<close>, which \<^verbatim>\<open>plot\<close> calls next, holds the stored arrays themselves and sets the
  length of \<^verbatim>\<open>lineOrder\<close> and of \<^verbatim>\<open>lineDisplay\<close> to the new line count; for a selection with
  a header it stores the header as \<^verbatim>\<open>lineTitleArray\<close>, one title for each line. When \<^verbatim>\<open>plot\<close>
  returns, \<^verbatim>\<open>lineOrder\<close> and \<^verbatim>\<open>lineDisplay\<close> have length equal to the new line count, and
  so has \<^verbatim>\<open>lineTitleArray\<close> for a selection with a header; for a selection without header
  \<^verbatim>\<open>lineTitleArray\<close> keeps the \<^verbatim>\<open>MaxLineNumber\<close> default titles.
\<close>

theorem plot_reset_lengths:
  assumes "convert parseStr d = Inr new"
      and "bindingData p = Some old" and "yData old = Some ys_old"
      and "yData new = Some ys_new" and "length ys_new \<noteq> length ys_old"
      and "xData new \<noteq> []" and "ys_new \<noteq> []"
  shows "(\<exists>w1. onDataChanged defaultLegendName p (Some new) w = Inr w1
            \<and> setting_length w1 key_lineOrder = Some (nat MaxLineNumber)
            \<and> setting_length w1 key_lineDisplay = Some (nat MaxLineNumber)
            \<and> setting_length w1 key_lineTitleArray = Some (nat MaxLineNumber))
       \<and> (\<exists>p' w'. plot defaultLegendName (Some new) (p, w) = Inr (p', w')
            \<and> lineNumber p' = length ys_new
            \<and> settings w' key_lineOrder = Some (lineOrder p')
            \<and> settings w' key_lineDisplay = Some (lineDisplay p')
            \<and> setting_length w' key_lineOrder = Some (length ys_new)
            \<and> setting_length w' key_lineDisplay = Some (length ys_new)
            \<and> setting_length w' key_lineTitleArray
                = Some (if hasHeader d then length ys_new else nat MaxLineNumber))"
proof -
  from convert_result_lines_ok [OF assms(1,4)]
  have wf: "list_all (\<lambda>l. validDataCount l \<le> length (data l)) ys_new"
    by (simp add: list_all_iff line_ok_def)
  from convert_header_lines [OF assms(1,4)] assms(7)
  have hd: "(if header new = [] then nat MaxLineNumber else length (header new))
            = (if hasHeader d then length ys_new else nat MaxLineNumber)"
    by auto
  from plot_reset [OF assms(2-7) wf, of defaultLegendName w] show ?thesis
    unfolding hd .
qed

theorem plot_reset_lengths_witness:
  "convert parse_digits example_raw = Inr example_binding
   \<and> (\<exists>p' w'. plot ''Series {0}'' (Some example_binding) (single_plotter, example_state) = Inr (p', w')
          \<and> lineNumber p' = 2
          \<and> setting_length w' key_lineOrder = Some 2
          \<and> setting_length w' key_lineDisplay = Some 2
          \<and> setting_length w' key_lineTitleArray = Some 2)"
proof -
  have 1: "bindingData single_plotter = Some single_binding"
    by (simp add: single_plotter_def)
  have 2: "yData single_binding = Some (the (yData single_binding))"
    by (simp add: single_binding_def)
  have 3: "yData example_binding = Some (the (yData example_binding))"
    by (simp add: example_binding_def)
  have 4: "length (the (yData example_binding)) \<noteq> length (the (yData single_binding))"
    by (simp add: single_binding_def example_binding_def)
  have 5: "xData example_binding \<noteq> []" "the (yData example_binding) \<noteq> []"
    by (simp_all add: example_binding_def)
  have 6: "hasHeader example_raw" "length (the (yData example_binding)) = 2"
    by (simp_all add: example_raw_def example_binding_def)
  from plot_reset_lengths [OF convert_example 1 2 3 4 5, of "''Series {0}''" example_state] 6
  have "\<exists>p' w'. plot ''Series {0}'' (Some example_binding) (single_plotter, example_state) = Inr (p', w')
          \<and> lineNumber p' = 2
          \<and> setting_length w' key_lineOrder = Some 2
          \<and> setting_length w' key_lineDisplay = Some 2
          \<and> setting_length w' key_lineTitleArray = Some 2"
    by auto
  with convert_example show ?thesis by simp
qed

text \<open>
  C1 as stated fails for a selection without header: after the reset triggered by a change
  from one line to two lines, and the \<^verbatim>\<open>initData\<close> that follows it, the array stored under
  \<^verbatim>\<open>lineTitleArray\<close> has length 5, not 2.
\<close>

theorem plot_reset_titles_without_header:
  "convert parse_digits headerless_raw = Inr headerless_binding
   \<and> map_option length (yData single_binding) = Some 1
   \<and> map_option length (yData headerless_binding) = Some 2
   \<and> (\<exists>p' w'. plot ''Series {0}'' (Some headerless_binding) (single_plotter, example_state) = Inr (p', w')
          \<and> lineNumber p' = 2
          \<and> setting_length w' key_lineOrder = Some 2
          \<and> setting_length w' key_lineDisplay = Some 2
          \<and> setting_length w' key_lineTitleArray = Some 5)"
proof -
  have c: "convert parse_digits headerless_raw = Inr headerless_binding"
    by code_simp
  have 1: "bindingData single_plotter = Some single_binding"
    by (simp add: single_plotter_def)
  have 2: "yData single_binding = Some (the (yData single_binding))"
    by (simp add: single_binding_def)
  have 3: "yData headerless_binding = Some (the (yData headerless_binding))"
    by (simp add: headerless_binding_def)
  have 4: "length (the (yData headerless_binding)) \<noteq> length (the (yData single_binding))"
    by (simp add: single_binding_def headerless_binding_def)
  have 5: "xData headerless_binding \<noteq> []" "the (yData headerless_binding) \<noteq> []"
    by (simp_all add: headerless_binding_def)
  have 6: "list_all (\<lambda>l. validDataCount l \<le> length (data l)) (the (yData headerless_binding))"
    by (simp add: headerless_binding_def example_line_def)
  have 7: "header headerless_binding = []" "length (the (yData headerless_binding)) = 2"
      "nat MaxLineNumber = 5"
    by (simp_all add: headerless_binding_def MaxLineNumber_def)
  from plot_reset [OF 1 2 3 4 5 6, of "''Series {0}''" example_state] 7
  have "\<exists>p' w'. plot ''Series {0}'' (Some headerless_binding) (single_plotter, example_state) = Inr (p', w')
          \<and> lineNumber p' = 2
          \<and> setting_length w' key_lineOrder = Some 2
          \<and> setting_length w' key_lineDisplay = Some 2
          \<and> setting_length w' key_lineTitleArray = Some 5"
    by auto
  with c show ?thesis by (simp add: single_binding_def headerless_binding_def)
qed

section \<open>Theorems: delayed set\<close>




lemma persisted_cong: "env w' = env w \<Longrightarrow> persisted w' = persisted w"
  by (auto simp: env_def persisted_def fun_eq_iff)





























text \<open>
  The two keys that are not ordinary property names. At \<^verbatim>\<open>__proto__\<close> the id of the first
  timer is not kept, so the timer is not cancelled: both timers fire, the listener is
  called with the first value and then with the second, and nothing is assigned. At
  \<^verbatim>\<open>length\<close> the first timer is cancelled, and the callback of the second one throws a
  \<^verbatim>\<open>RangeError\<close> for a value that is no array length, before any listener is called.
\<close>

lemma delaySet_at_proto_and_length:
  "notified (elapse digits_toNumber 1000 (delaySet ''__proto__'' (VStr ''b'') 1000
             (elapse digits_toNumber 300 (delaySet ''__proto__'' (VStr ''a'') 1000 example_state))))
     = [(1, ''__proto__'', VStr ''a''), (1, ''__proto__'', VStr ''b'')]
   \<and> writes (elapse digits_toNumber 1000 (delaySet ''__proto__'' (VStr ''b'') 1000
             (elapse digits_toNumber 300 (delaySet ''__proto__'' (VStr ''a'') 1000 example_state))))
     = []
   \<and> notified (elapse digits_toNumber 1000 (delaySet ''length'' (VStr ''wide'') 1000
             (elapse digits_toNumber 300 (delaySet ''length'' (VStr ''a'') 1000 example_state))))
     = []
   \<and> uncaught (elapse digits_toNumber 1000 (delaySet ''length'' (VStr ''wide'') 1000
             (elapse digits_toNumber 300 (delaySet ''length'' (VStr ''a'') 1000 example_state))))
     = [RangeError]"
  by (simp add: elapse_def delaySet_def setTimeout_def clearTimeout_def example_state_def
        ids_assign_def run_timers.simps fire_def timer_callback_def Configuration_set_any_def
        Configuration_set_def save_def Let_def array_length_of_def digits_toNumber_def
        parse_digits_def is_digit_def)


end
